theory Spec2Isabelle
  imports Complex_Main "HOL-Library.Multiset"
begin

section \<open>Data model\<close>

text \<open>
  The embedding follows the two hooks of the application: \<open>useAudioPlayer\<close> (the audio
  engine) and \<open>usePomodoro\<close> (the phase timer and the station selection).
  JavaScript numbers that hold counts and seconds are modelled as \<open>int\<close>, volumes as
  exact rationals; floating-point rounding is not modelled.
\<close>

record RadioStation =
  stationuuid :: string
  name :: string
  url :: string
  url_resolved :: string

record PomodoroSettings =
  workDuration :: int
  shortBreakDuration :: int
  longBreakDuration :: int
  sessionsUntilLongBreak :: int
  fadeInDuration :: int
  fadeOutDuration :: int

datatype PomodoroPhase = Work | ShortBreak | LongBreak | Paused

record PomodoroState =
  phase :: PomodoroPhase
  timeRemaining :: int
  isRunning :: bool
  completedSessions :: int
  currentCycle :: int

record AudioPlayerState =
  isPlaying :: bool
  isLoading :: bool
  volume :: rat
  currentStation :: "RadioStation option"
  error :: "string option"
  isCrossfading :: bool

definition DEFAULT_SETTINGS :: PomodoroSettings where
  "DEFAULT_SETTINGS =
     \<lparr>workDuration = 25, shortBreakDuration = 5, longBreakDuration = 15,
      sessionsUntilLongBreak = 4, fadeInDuration = 3, fadeOutDuration = 3\<rparr>"

definition initialPomodoroState :: "PomodoroSettings \<Rightarrow> PomodoroState" where
  "initialPomodoroState s =
     \<lparr>phase = Work, timeRemaining = workDuration s * 60, isRunning = False,
      completedSessions = 0, currentCycle = 1\<rparr>"

section \<open>The phase timer\<close>

text \<open>
  The remainder operator of JavaScript on integers: the result takes the sign of the
  dividend, and a zero divisor gives \<open>NaN\<close>, here \<open>None\<close>. A comparison of \<open>NaN\<close>
  with \<open>0\<close> is false.
\<close>

definition js_rem :: "int \<Rightarrow> int \<Rightarrow> int option" where
  "js_rem a b = (if b = 0 then None else Some (sgn a * (\<bar>a\<bar> mod \<bar>b\<bar>)))"

definition getNextPhase :: "PomodoroSettings \<Rightarrow> PomodoroPhase \<Rightarrow> int \<Rightarrow> PomodoroPhase" where
  "getNextPhase s currentPhase completed =
     (if currentPhase = Work then
        (let isLongBreak = (js_rem (completed + 1) (sessionsUntilLongBreak s) = Some 0)
         in if isLongBreak then LongBreak else ShortBreak)
      else Work)"

definition getDurationForPhase :: "PomodoroSettings \<Rightarrow> PomodoroPhase \<Rightarrow> int" where
  "getDurationForPhase s p =
     (case p of
        Work \<Rightarrow> workDuration s * 60
      | ShortBreak \<Rightarrow> shortBreakDuration s * 60
      | LongBreak \<Rightarrow> longBreakDuration s * 60
      | Paused \<Rightarrow> workDuration s * 60)"

text \<open>
  The calls a timer callback makes into the audio hook. \<open>playRandomStation\<close> and
  \<open>stopWithFade\<close> are started and not awaited; \<open>stop\<close> is synchronous. The callbacks
  are modelled as returning the calls they issue, in order, with the new timer state.
\<close>

datatype audio_call = CallPlayRandomStation | CallStopWithFade int | CallStop

text \<open>
  One run of the state updater of \<open>tick\<close>, taken to run once per firing of the
  interval. The second argument is the audio state as the closure of \<open>tick\<close> sees it
  (the hook's state at the render that created it).
\<close>

definition tick ::
  "PomodoroSettings \<Rightarrow> AudioPlayerState \<Rightarrow> PomodoroState \<Rightarrow> audio_call list \<times> PomodoroState" where
  "tick s audio prev =
     (let newTimeRemaining = timeRemaining prev - 1;
          early = (if newTimeRemaining = 3
                   then (if phase prev = Work then [CallPlayRandomStation]
                         else [CallStopWithFade 3])
                   else [])
      in if newTimeRemaining \<le> 0 then
           (let nextPhase = getNextPhase s (phase prev) (completedSessions prev);
                nextDuration = getDurationForPhase s nextPhase
            in if phase prev = Work then
                 (early,
                  prev\<lparr>phase := nextPhase, timeRemaining := nextDuration,
                       completedSessions := completedSessions prev + 1\<rparr>)
               else
                 (early @ (if isPlaying audio \<or> currentStation audio \<noteq> None
                           then [CallStop] else []),
                  prev\<lparr>phase := nextPhase, timeRemaining := nextDuration,
                       currentCycle := (if nextPhase = Work then currentCycle prev + 1
                                        else currentCycle prev)\<rparr>))
         else (early, prev\<lparr>timeRemaining := newTimeRemaining\<rparr>))"

definition skip :: "PomodoroSettings \<Rightarrow> PomodoroState \<Rightarrow> audio_call list \<times> PomodoroState" where
  "skip s prev =
     (let nextPhase = getNextPhase s (phase prev) (completedSessions prev);
          nextDuration = getDurationForPhase s nextPhase;
          calls = (if nextPhase \<noteq> Work then [CallPlayRandomStation]
                   else [CallStopWithFade 1])
      in if phase prev = Work then
           (calls,
            prev\<lparr>phase := nextPhase, timeRemaining := nextDuration,
                 completedSessions := completedSessions prev + 1\<rparr>)
         else
           (calls,
            prev\<lparr>phase := nextPhase, timeRemaining := nextDuration,
                 currentCycle := (if nextPhase = Work then currentCycle prev + 1
                                  else currentCycle prev)\<rparr>))"

text \<open>
  A run of ticks: the interval fires once per element of the list, which gives the audio
  state each firing sees. The result lists, for every tick, the calls it issued and the
  timer state it left.
\<close>

fun run_ticks ::
  "PomodoroSettings \<Rightarrow> AudioPlayerState list \<Rightarrow> PomodoroState
     \<Rightarrow> (audio_call list \<times> PomodoroState) list" where
  "run_ticks s [] st = []"
| "run_ticks s (audio # rest) st =
     (let r = tick s audio st in r # run_ticks s rest (snd r))"

text \<open>The call that \<open>tick\<close> issues three seconds before the end of a phase.\<close>

definition early_call :: "PomodoroPhase \<Rightarrow> audio_call" where
  "early_call p = (if p = Work then CallPlayRandomStation else CallStopWithFade 3)"

definition example_idle_audio :: AudioPlayerState where
  "example_idle_audio =
     \<lparr>isPlaying = False, isLoading = False, volume = 7 / 10, currentStation = None,
      error = None, isCrossfading = False\<rparr>"

definition example_state_5 :: PomodoroState where
  "example_state_5 =
     \<lparr>phase = Work, timeRemaining = 5, isRunning = True, completedSessions = 0,
      currentCycle = 1\<rparr>"

definition example_break_state :: PomodoroState where
  "example_break_state =
     \<lparr>phase = ShortBreak, timeRemaining = 1, isRunning = True, completedSessions = 1,
      currentCycle = 1\<rparr>"

section \<open>The audio engine\<close>

text \<open>
  The hook owns two media elements, \<open>audioRef\<close> (primary) and \<open>crossfadeAudioRef\<close>
  (transitional), both created when the hook is mounted. Of a media element the model
  keeps the source, the volume and the paused flag.
\<close>

datatype slot = Primary | Transitional

record HTMLAudioElement =
  src :: "string option"
  el_volume :: rat
  paused :: bool

text \<open>
  The interval of a running ramp: the closure of \<open>fadeIn\<close> holds its target volume, the
  closure of \<open>fadeOut\<close> its start volume (\<open>baseVolume\<close>), both hold the step counter.
  The number of steps is 50 and the volume step is \<open>baseVolume / 50\<close>. The reference
  holds \<open>Some\<close> exactly while an interval is scheduled.
\<close>

datatype fade_dir = FadeIn | FadeOut

record fade_interval =
  dir :: fade_dir
  baseVolume :: rat
  stepTime :: rat
  currentStep :: nat

record crossfade_interval =
  fromAudio :: slot
  toAudio :: slot
  toTargetVolume :: rat
  fromStartVolume :: rat
  crossStepTime :: rat
  crossCurrentStep :: nat

text \<open>
  What the code does to its collaborators is recorded, in order, in a trace: the calls on
  the two media elements, the click registration, and, for the station selection, the
  calls of \<open>playStation\<close>, the callback \<open>onStationSelected\<close>, the one-second delay and the
  console reports.
\<close>

datatype event =
    EvRegisterClick string bool
  | EvSetSrc slot string
  | EvRemoveSrc slot
  | EvLoad slot
  | EvPlay slot bool
  | EvPause slot
  | EvVolume slot rat
  | EvPlayStationCall RadioStation
  | EvStationSelected RadioStation
  | EvAttemptFailed RadioStation
  | EvDelay nat
  | EvNoStations
  | EvAllAttemptsFailed

record player =
  astate :: AudioPlayerState
  audioRef :: "HTMLAudioElement option"
  crossfadeAudioRef :: "HTMLAudioElement option"
  fadeIntervalRef :: "fade_interval option"
  crossfadeIntervalRef :: "crossfade_interval option"
  trace :: "event list"

text \<open>The hook before and after its mount effect has run.\<close>

definition initialAudioState :: AudioPlayerState where
  "initialAudioState =
     \<lparr>isPlaying = False, isLoading = False, volume = 7 / 10, currentStation = None,
      error = None, isCrossfading = False\<rparr>"

definition unmounted :: player where
  "unmounted =
     \<lparr>astate = initialAudioState, audioRef = None, crossfadeAudioRef = None,
      fadeIntervalRef = None, crossfadeIntervalRef = None, trace = []\<rparr>"

definition newAudio :: HTMLAudioElement where
  "newAudio = \<lparr>src = None, el_volume = 0, paused = True\<rparr>"

definition mounted :: player where
  "mounted = unmounted\<lparr>audioRef := Some newAudio, crossfadeAudioRef := Some newAudio\<rparr>"

subsection \<open>Media element calls\<close>

definition emit :: "event \<Rightarrow> player \<Rightarrow> player" where
  "emit e p = p\<lparr>trace := trace p @ [e]\<rparr>"

definition upd_el :: "slot \<Rightarrow> (HTMLAudioElement \<Rightarrow> HTMLAudioElement) \<Rightarrow> player \<Rightarrow> player" where
  "upd_el sl f p =
     (case sl of
        Primary \<Rightarrow> p\<lparr>audioRef := map_option f (audioRef p)\<rparr>
      | Transitional \<Rightarrow> p\<lparr>crossfadeAudioRef := map_option f (crossfadeAudioRef p)\<rparr>)"

definition get_el :: "slot \<Rightarrow> player \<Rightarrow> HTMLAudioElement option" where
  "get_el sl p = (case sl of Primary \<Rightarrow> audioRef p | Transitional \<Rightarrow> crossfadeAudioRef p)"

definition el_set_volume :: "slot \<Rightarrow> rat \<Rightarrow> player \<Rightarrow> player" where
  "el_set_volume sl v p = emit (EvVolume sl v) (upd_el sl (\<lambda>e. e\<lparr>el_volume := v\<rparr>) p)"

definition el_pause :: "slot \<Rightarrow> player \<Rightarrow> player" where
  "el_pause sl p = emit (EvPause sl) (upd_el sl (\<lambda>e. e\<lparr>paused := True\<rparr>) p)"

text \<open>
  \<open>play()\<close> returns a promise; the flag says whether it is fulfilled. A rejected
  \<open>play()\<close> leaves the element as it was.
\<close>

definition el_play :: "slot \<Rightarrow> bool \<Rightarrow> player \<Rightarrow> player" where
  "el_play sl ok p =
     emit (EvPlay sl ok) (if ok then upd_el sl (\<lambda>e. e\<lparr>paused := False\<rparr>) p else p)"

definition el_set_src :: "slot \<Rightarrow> string \<Rightarrow> player \<Rightarrow> player" where
  "el_set_src sl u p = emit (EvSetSrc sl u) (upd_el sl (\<lambda>e. e\<lparr>src := Some u\<rparr>) p)"

definition el_remove_src :: "slot \<Rightarrow> player \<Rightarrow> player" where
  "el_remove_src sl p = emit (EvRemoveSrc sl) (upd_el sl (\<lambda>e. e\<lparr>src := None\<rparr>) p)"

definition el_load :: "slot \<Rightarrow> player \<Rightarrow> player" where
  "el_load sl p = emit (EvLoad sl) p"

definition set_state :: "(AudioPlayerState \<Rightarrow> AudioPlayerState) \<Rightarrow> player \<Rightarrow> player" where
  "set_state f p = p\<lparr>astate := f (astate p)\<rparr>"

subsection \<open>Listeners of the primary element\<close>

text \<open>
  The five listeners attached at mount. The browser decides when they fire, so a firing
  is a step of its own (\<open>OpMediaEvent\<close> below), not part of the operation that caused it.
\<close>

datatype media_event = LoadStart | CanPlayThrough | ErrorEvent | PlayEvent | PauseEvent

definition handle_event :: "media_event \<Rightarrow> player \<Rightarrow> player" where
  "handle_event ev p =
     (case ev of
        LoadStart \<Rightarrow> set_state (\<lambda>s. s\<lparr>isLoading := True, error := None\<rparr>) p
      | CanPlayThrough \<Rightarrow> set_state (\<lambda>s. s\<lparr>isLoading := False\<rparr>) p
      | ErrorEvent \<Rightarrow>
          set_state (\<lambda>s. s\<lparr>isLoading := False, error := Some ''Failed to load radio stream'',
                             isPlaying := False\<rparr>) p
      | PlayEvent \<Rightarrow> set_state (\<lambda>s. s\<lparr>isPlaying := True\<rparr>) p
      | PauseEvent \<Rightarrow> set_state (\<lambda>s. s\<lparr>isPlaying := False\<rparr>) p)"

subsection \<open>Volume ramps\<close>

definition clearFadeInterval :: "player \<Rightarrow> player" where
  "clearFadeInterval p = p\<lparr>fadeIntervalRef := None\<rparr>"

text \<open>
  Operations created by \<open>useCallback\<close> read \<open>state\<close> from the render that created
  them. That snapshot is the argument \<open>snap\<close>; state updates act on the current state.
\<close>

definition fadeIn :: "AudioPlayerState \<Rightarrow> rat \<Rightarrow> player \<Rightarrow> player" where
  "fadeIn snap duration p =
     (case audioRef p of
        None \<Rightarrow> p
      | Some a \<Rightarrow>
          (el_set_volume Primary 0 (clearFadeInterval p))
            \<lparr>fadeIntervalRef :=
               Some \<lparr>dir = FadeIn, baseVolume = volume snap,
                     stepTime = duration * 1000 / 50, currentStep = 0\<rparr>\<rparr>)"

definition fadeOut :: "rat \<Rightarrow> player \<Rightarrow> player" where
  "fadeOut duration p =
     (case audioRef p of
        None \<Rightarrow> p
      | Some a \<Rightarrow>
          (clearFadeInterval p)
            \<lparr>fadeIntervalRef :=
               Some \<lparr>dir = FadeOut, baseVolume = el_volume a,
                     stepTime = duration * 1000 / 50, currentStep = 0\<rparr>\<rparr>)"

text \<open>One firing of the interval of \<open>fadeIn\<close> or \<open>fadeOut\<close>.\<close>

definition fade_callback :: "player \<Rightarrow> player" where
  "fade_callback p =
     (case fadeIntervalRef p of
        None \<Rightarrow> p
      | Some t \<Rightarrow>
          if 50 \<le> currentStep t then
            (case dir t of
               FadeIn \<Rightarrow> el_set_volume Primary (baseVolume t) (clearFadeInterval p)
             | FadeOut \<Rightarrow> el_pause Primary (el_set_volume Primary 0 (clearFadeInterval p)))
          else
            (el_set_volume Primary
               (case dir t of
                  FadeIn \<Rightarrow> min (baseVolume t / 50 * of_nat (currentStep t)) (baseVolume t)
                | FadeOut \<Rightarrow>
                    max (baseVolume t - baseVolume t / 50 * of_nat (currentStep t)) 0)
               p)
              \<lparr>fadeIntervalRef := Some (t\<lparr>currentStep := Suc (currentStep t)\<rparr>)\<rparr>)"

text \<open>
  Awaiting the promise of \<open>fadeOut\<close> with nothing else running: the interval fires
  until its last firing clears it and resolves the promise.
\<close>

function await_fade :: "player \<Rightarrow> player" where
  "await_fade p =
     (if fadeIntervalRef p = None then p else await_fade (fade_callback p))"
  by pat_completeness auto
termination
  by (relation "measure (\<lambda>p. case fadeIntervalRef p of None \<Rightarrow> 0
                                | Some t \<Rightarrow> Suc (51 - currentStep t))")
     (auto simp: fade_callback_def el_set_volume_def el_pause_def emit_def upd_el_def
        clearFadeInterval_def split: option.splits fade_dir.splits)

declare await_fade.simps [simp del]

definition crossfade :: "AudioPlayerState \<Rightarrow> slot \<Rightarrow> slot \<Rightarrow> rat \<Rightarrow> player \<Rightarrow> player" where
  "crossfade snap fromA toA duration p =
     (set_state (\<lambda>s. s\<lparr>isCrossfading := True\<rparr>) p)
       \<lparr>crossfadeIntervalRef :=
          Some \<lparr>fromAudio = fromA, toAudio = toA, toTargetVolume = volume snap,
                fromStartVolume = (case get_el fromA p of None \<Rightarrow> 0 | Some a \<Rightarrow> el_volume a),
                crossStepTime = duration * 1000 / 50, crossCurrentStep = 0\<rparr>\<rparr>"

definition crossfade_callback :: "player \<Rightarrow> player" where
  "crossfade_callback p =
     (case crossfadeIntervalRef p of
        None \<Rightarrow> p
      | Some t \<Rightarrow>
          if 50 \<le> crossCurrentStep t then
            set_state (\<lambda>s. s\<lparr>isCrossfading := False\<rparr>)
              (el_set_volume (toAudio t) (toTargetVolume t)
                 (el_pause (fromAudio t)
                    (el_set_volume (fromAudio t) 0 (p\<lparr>crossfadeIntervalRef := None\<rparr>))))
          else
            (el_set_volume (toAudio t)
               (min (toTargetVolume t / 50 * of_nat (crossCurrentStep t)) (toTargetVolume t))
               (el_set_volume (fromAudio t)
                  (max (fromStartVolume t
                          - fromStartVolume t / 50 * of_nat (crossCurrentStep t)) 0)
                  p))
              \<lparr>crossfadeIntervalRef := Some (t\<lparr>crossCurrentStep := Suc (crossCurrentStep t)\<rparr>)\<rparr>)"

subsection \<open>The radio API client\<close>

text \<open>
  \<open>makeRequest\<close> tries the servers in rotation, once each, starting at the current one.
  \<open>respond server endpoint\<close> says whether the request to that server succeeds (the
  fetch, the status check and the parsing of the answer). The answer itself is not used
  by the audio hook and is left out. When every server fails, the last error is thrown.
\<close>

record RadioServer =
  server_name :: string
  server_url :: string

record RadioAPI =
  servers :: "RadioServer list"
  currentServerIndex :: nat

datatype request_error =
    NoServersAvailable | ServerIndexOutOfRange | RequestFailed string | AllServersFailed

definition getCurrentServer :: "RadioAPI \<Rightarrow> request_error + string" where
  "getCurrentServer api =
     (if servers api = [] then Inl NoServersAvailable
      else if currentServerIndex api < length (servers api)
      then Inr (server_url (servers api ! currentServerIndex api))
      else Inl ServerIndexOutOfRange)"

definition rotateServer :: "RadioAPI \<Rightarrow> RadioAPI" where
  "rotateServer api =
     api\<lparr>currentServerIndex := (currentServerIndex api + 1) mod length (servers api)\<rparr>"

text \<open>
  The loop of \<open>makeRequest\<close>, by the number of iterations left. An error of
  \<open>getCurrentServer\<close> is caught and thrown again by the same call in the \<open>catch\<close> block.
\<close>

fun request_attempts ::
  "nat \<Rightarrow> (string \<Rightarrow> string \<Rightarrow> bool) \<Rightarrow> string \<Rightarrow> request_error option \<Rightarrow> RadioAPI
     \<Rightarrow> (request_error + unit) \<times> RadioAPI" where
  "request_attempts 0 respond endpoint lastError api =
     (Inl (case lastError of None \<Rightarrow> AllServersFailed | Some e \<Rightarrow> e), api)"
| "request_attempts (Suc n) respond endpoint lastError api =
     (case getCurrentServer api of
        Inl e \<Rightarrow> (Inl e, api)
      | Inr server \<Rightarrow>
          if respond server endpoint then (Inr (), api)
          else request_attempts n respond endpoint (Some (RequestFailed server))
                 (rotateServer api))"

definition makeRequest ::
  "(string \<Rightarrow> string \<Rightarrow> bool) \<Rightarrow> string \<Rightarrow> RadioAPI \<Rightarrow> (request_error + unit) \<times> RadioAPI" where
  "makeRequest respond endpoint api =
     request_attempts (length (servers api)) respond endpoint None api"

definition registerClick ::
  "(string \<Rightarrow> string \<Rightarrow> bool) \<Rightarrow> string \<Rightarrow> RadioAPI \<Rightarrow> (request_error + unit) \<times> RadioAPI" where
  "registerClick respond uuid api = makeRequest respond (''/url/'' @ uuid) api"

subsection \<open>playStation\<close>

text \<open>
  The outcomes of the three awaited calls of one \<open>playStation\<close>: the result of
  \<open>registerClick\<close>, the load of the station (\<open>canplay\<close> or \<open>error\<close>) and \<open>play()\<close>.
\<close>

record play_outcomes =
  click_result :: "request_error + unit"
  load_ok :: bool
  play_ok :: bool

definition click_ok :: "play_outcomes \<Rightarrow> bool" where
  "click_ok oc = (case click_result oc of Inl e \<Rightarrow> False | Inr u \<Rightarrow> True)"

datatype play_error = ClickFailed | LoadFailed | PlayRejected

definition stationUrl :: "RadioStation \<Rightarrow> string" where
  "stationUrl station = (if url_resolved station \<noteq> [] then url_resolved station else url station)"

text \<open>The branch taken while audio is playing: fade out, switch the source, fade in.\<close>

definition play_sequential ::
  "AudioPlayerState \<Rightarrow> play_outcomes \<Rightarrow> RadioStation \<Rightarrow> player \<Rightarrow> (play_error + unit) \<times> player" where
  "play_sequential snap oc station p0 =
     (let p1 = emit (EvRegisterClick (stationuuid station) (click_ok oc)) p0 in
      if \<not> click_ok oc then (Inl ClickFailed, p1)
      else
        let p2 = el_set_src Transitional (stationUrl station) p1;
            p3 = el_set_volume Transitional 0 p2;
            p4 = set_state (\<lambda>s. s\<lparr>currentStation := Some station, error := None,
                                    isLoading := True, isCrossfading := True\<rparr>) p3;
            p5 = el_load Transitional p4
        in if \<not> load_ok oc then (Inl LoadFailed, p5)
           else
             let p6 = set_state (\<lambda>s. s\<lparr>isLoading := False\<rparr>) p5;
                 p7 = await_fade (fadeOut 2 p6);
                 newSrc = (case Option.bind (crossfadeAudioRef p7) src of
                             None \<Rightarrow> [] | Some u \<Rightarrow> u);
                 p8 = el_set_src Primary newSrc p7;
                 p9 = el_set_volume Primary 0 p8;
                 p10 = el_play Primary (play_ok oc) p9
             in if \<not> play_ok oc then (Inl PlayRejected, p10)
                else
                  let p11 = fadeIn snap 2 p10;
                      p12 = el_pause Transitional p11;
                      p13 = el_set_volume Transitional 0 p12;
                      p14 = el_remove_src Transitional p13;
                      p15 = el_load Transitional p14
                  in (Inr (), set_state (\<lambda>s. s\<lparr>isCrossfading := False\<rparr>) p15))"

text \<open>The branch taken while nothing is playing.\<close>

definition play_direct ::
  "AudioPlayerState \<Rightarrow> play_outcomes \<Rightarrow> RadioStation \<Rightarrow> player \<Rightarrow> (play_error + unit) \<times> player" where
  "play_direct snap oc station p0 =
     (let p1 = clearFadeInterval p0;
          p2 = el_pause Primary p1;
          p3 = el_set_volume Primary 0 p2;
          p4 = emit (EvRegisterClick (stationuuid station) (click_ok oc)) p3
      in if \<not> click_ok oc then (Inl ClickFailed, p4)
         else
           let p5 = el_set_src Primary (stationUrl station) p4;
               p6 = el_set_volume Primary 0 p5;
               p7 = set_state (\<lambda>s. s\<lparr>currentStation := Some station, error := None\<rparr>) p6;
               p8 = el_load Primary p7
           in if \<not> load_ok oc then (Inl LoadFailed, p8)
              else
                let p9 = el_play Primary (play_ok oc) p8
                in if \<not> play_ok oc then (Inl PlayRejected, p9)
                   else (Inr (), fadeIn snap 3 p9))"

text \<open>
  \<open>playStation\<close>: without both elements it returns at once; an error of either branch
  is caught, recorded in the state and thrown again.
\<close>

definition playStation ::
  "AudioPlayerState \<Rightarrow> play_outcomes \<Rightarrow> RadioStation \<Rightarrow> player \<Rightarrow> (play_error + unit) \<times> player" where
  "playStation snap oc station p =
     (case (audioRef p, crossfadeAudioRef p) of
        (Some a, Some c) \<Rightarrow>
          (let isCurrentlyPlaying = (isPlaying snap \<and> 0 < el_volume a \<and> \<not> paused a)
           in case (if isCurrentlyPlaying then play_sequential snap oc station p
                    else play_direct snap oc station p) of
                (Inl e, p') \<Rightarrow>
                  (Inl e,
                   set_state (\<lambda>s. s\<lparr>error := Some ''Failed to play radio station'',
                                      isPlaying := False, isLoading := False,
                                      isCrossfading := False\<rparr>) p')
              | (Inr u, p') \<Rightarrow> (Inr u, p'))
      | _ \<Rightarrow> (Inr (), p))"

subsection \<open>The other operations\<close>

text \<open>
  In \<open>stopWithFade\<close> nothing between \<open>try\<close> and \<open>catch\<close> can throw (the promise of
  \<open>fadeOut\<close> is never rejected), so the \<open>catch\<close> branch has no counterpart here.
\<close>

definition stopWithFade :: "rat \<Rightarrow> player \<Rightarrow> player" where
  "stopWithFade fadeDuration p =
     (case audioRef p of
        None \<Rightarrow> set_state (\<lambda>s. s\<lparr>currentStation := None, isPlaying := False\<rparr>) p
      | Some a \<Rightarrow>
          (let p1 = await_fade (fadeOut fadeDuration p);
               p2 = clearFadeInterval p1;
               p3 = el_pause Primary p2;
               p4 = el_set_volume Primary 0 p3
           in set_state (\<lambda>s. s\<lparr>currentStation := None, isPlaying := False, error := None\<rparr>) p4))"

definition pause :: "player \<Rightarrow> player" where
  "pause p =
     (case audioRef p of
        None \<Rightarrow> p
      | Some a \<Rightarrow>
          set_state (\<lambda>s. s\<lparr>isPlaying := False\<rparr>) (el_pause Primary (clearFadeInterval p)))"

definition resume :: "AudioPlayerState \<Rightarrow> bool \<Rightarrow> player \<Rightarrow> player" where
  "resume snap ok p =
     (if audioRef p = None \<or> currentStation snap = None then p
      else
        (let p1 = el_set_volume Primary (volume snap) p;
             p2 = el_play Primary ok p1
         in if ok then p2
            else set_state (\<lambda>s. s\<lparr>error := Some ''Failed to resume audio''\<rparr>) p2))"

definition stop :: "player \<Rightarrow> player" where
  "stop p =
     (case audioRef p of
        None \<Rightarrow> p
      | Some a \<Rightarrow>
          set_state (\<lambda>s. s\<lparr>isPlaying := False, currentStation := None\<rparr>)
            (el_set_volume Primary 0 (el_pause Primary (clearFadeInterval p))))"

definition setVolume :: "AudioPlayerState \<Rightarrow> rat \<Rightarrow> player \<Rightarrow> player" where
  "setVolume snap v p =
     (let clampedVolume = max 0 (min 1 v);
          p1 = set_state (\<lambda>s. s\<lparr>volume := clampedVolume\<rparr>) p
      in if audioRef p \<noteq> None \<and> isPlaying snap \<and> \<not> isCrossfading snap
         then el_set_volume Primary clampedVolume p1 else p1)"

subsection \<open>Sequences of operations\<close>

text \<open>
  The steps that can change the audio hook: its operations, each run to completion, the
  firings of the two intervals and of the listeners.
\<close>

datatype audio_op =
    OpPlayStation AudioPlayerState play_outcomes RadioStation
  | OpStop
  | OpStopWithFade rat
  | OpPause
  | OpResume AudioPlayerState bool
  | OpSetVolume AudioPlayerState rat
  | OpFadeIn AudioPlayerState rat
  | OpFadeOut rat
  | OpCrossfade AudioPlayerState slot slot rat
  | OpFadeCallback
  | OpCrossfadeCallback
  | OpMediaEvent media_event

fun apply_op :: "audio_op \<Rightarrow> player \<Rightarrow> player" where
  "apply_op (OpPlayStation snap oc station) p = snd (playStation snap oc station p)"
| "apply_op OpStop p = stop p"
| "apply_op (OpStopWithFade d) p = stopWithFade d p"
| "apply_op OpPause p = pause p"
| "apply_op (OpResume snap ok) p = resume snap ok p"
| "apply_op (OpSetVolume snap v) p = setVolume snap v p"
| "apply_op (OpFadeIn snap d) p = fadeIn snap d p"
| "apply_op (OpFadeOut d) p = fadeOut d p"
| "apply_op (OpCrossfade snap a b d) p = crossfade snap a b d p"
| "apply_op OpFadeCallback p = fade_callback p"
| "apply_op OpCrossfadeCallback p = crossfade_callback p"
| "apply_op (OpMediaEvent ev) p = handle_event ev p"

definition run_ops :: "audio_op list \<Rightarrow> player \<Rightarrow> player" where
  "run_ops ops p = fold apply_op ops p"

text \<open>
  The claim about the invariant of the current-station reference reads the history of
  the hook. Both readings of the history are computed from the steps, oldest first:
  \<open>loaded_since_stop\<close> says that some \<open>playStation\<close> since the last \<open>stop\<close> or
  \<open>stopWithFade\<close> had its station loaded; \<open>load_begun_since_stop\<close> says that some
  \<open>playStation\<close> since then got past its click registration and began to load.
\<close>

fun loaded_step :: "audio_op \<Rightarrow> bool \<Rightarrow> bool" where
  "loaded_step (OpPlayStation snap oc station) b = (b \<or> (click_ok oc \<and> load_ok oc))"
| "loaded_step OpStop b = False"
| "loaded_step (OpStopWithFade d) b = False"
| "loaded_step other b = b"

definition loaded_since_stop :: "audio_op list \<Rightarrow> bool" where
  "loaded_since_stop ops = fold loaded_step ops False"

fun load_begun_step :: "audio_op \<Rightarrow> bool \<Rightarrow> bool" where
  "load_begun_step (OpPlayStation snap oc station) b = (b \<or> click_ok oc)"
| "load_begun_step OpStop b = False"
| "load_begun_step (OpStopWithFade d) b = False"
| "load_begun_step other b = b"

definition load_begun_since_stop :: "audio_op list \<Rightarrow> bool" where
  "load_begun_since_stop ops = fold load_begun_step ops False"

subsection \<open>Reading a trace\<close>

text \<open>
  The primary element after an event, and the check of a trace against the ordering of
  a sequential transition: the transitional element is never given a positive volume
  and never played, and the source of the primary element changes only while the
  primary element is at volume 0 and paused. So the new stream can get a positive
  volume only after the old one was silenced and paused.
\<close>

fun primary_after :: "event \<Rightarrow> HTMLAudioElement \<Rightarrow> HTMLAudioElement" where
  "primary_after (EvVolume Primary v) a = a\<lparr>el_volume := v\<rparr>"
| "primary_after (EvPause Primary) a = a\<lparr>paused := True\<rparr>"
| "primary_after (EvPlay Primary ok) a = (if ok then a\<lparr>paused := False\<rparr> else a)"
| "primary_after (EvSetSrc Primary u) a = a\<lparr>src := Some u\<rparr>"
| "primary_after (EvRemoveSrc Primary) a = a\<lparr>src := None\<rparr>"
| "primary_after other a = a"

definition replay_primary :: "HTMLAudioElement \<Rightarrow> event list \<Rightarrow> HTMLAudioElement" where
  "replay_primary a evs = fold primary_after evs a"

fun switch_ok :: "HTMLAudioElement \<Rightarrow> event \<Rightarrow> bool" where
  "switch_ok a (EvVolume Transitional v) = (v \<le> 0)"
| "switch_ok a (EvPlay Transitional ok) = (\<not> ok)"
| "switch_ok a (EvSetSrc Primary u) = (el_volume a = 0 \<and> paused a)"
| "switch_ok a other = True"

fun silent_switch :: "HTMLAudioElement \<Rightarrow> event list \<Rightarrow> bool" where
  "silent_switch a [] = True"
| "silent_switch a (e # es) = (switch_ok a e \<and> silent_switch (primary_after e a) es)"

text \<open>The transitional element exists and is paused.\<close>

definition transitional_paused :: "player \<Rightarrow> bool" where
  "transitional_paused p = (case crossfadeAudioRef p of None \<Rightarrow> False | Some c \<Rightarrow> paused c)"

text \<open>The events of a volume ramp on the primary element.\<close>

fun is_ramp_event :: "event \<Rightarrow> bool" where
  "is_ramp_event (EvVolume Primary v) = True"
| "is_ramp_event (EvPause Primary) = True"
| "is_ramp_event other = False"

text \<open>The events of the media elements and of the click registration.\<close>

fun is_media_event :: "event \<Rightarrow> bool" where
  "is_media_event (EvPlayStationCall s) = False"
| "is_media_event (EvStationSelected s) = False"
| "is_media_event (EvAttemptFailed s) = False"
| "is_media_event (EvDelay n) = False"
| "is_media_event EvNoStations = False"
| "is_media_event EvAllAttemptsFailed = False"
| "is_media_event other = True"

fun calls_of :: "event list \<Rightarrow> RadioStation list" where
  "calls_of [] = []"
| "calls_of (EvPlayStationCall s # es) = s # calls_of es"
| "calls_of (e # es) = calls_of es"

fun selections_of :: "event list \<Rightarrow> RadioStation list" where
  "selections_of [] = []"
| "selections_of (EvStationSelected s # es) = s # selections_of es"
| "selections_of (e # es) = selections_of es"

text \<open>
  The station whose playback started last, read off a trace. The scan keeps the station
  of the call of \<open>playStation\<close> in progress, the source of the primary element, and the
  result: when \<open>play()\<close> on the primary element is fulfilled, playback of the station of
  the call in progress has started if the primary element holds the stream of that
  station, and otherwise no station is known to play.
\<close>

fun started_step ::
  "event \<Rightarrow> RadioStation option \<times> string option \<times> RadioStation option
     \<Rightarrow> RadioStation option \<times> string option \<times> RadioStation option" where
  "started_step (EvPlayStationCall s) (cur, source, started) = (Some s, source, started)"
| "started_step (EvSetSrc Primary u) (cur, source, started) = (cur, Some u, started)"
| "started_step (EvRemoveSrc Primary) (cur, source, started) = (cur, None, started)"
| "started_step (EvPlay Primary True) (cur, source, started) =
     (cur, source,
      case cur of
        None \<Rightarrow> None
      | Some s \<Rightarrow> if source = Some (stationUrl s) then Some s else None)"
| "started_step other (cur, source, started) = (cur, source, started)"


text \<open>
  The events of the branch of \<open>playStation\<close> taken while audio is playing, for every
  outcome of its awaited calls; \<open>ramp\<close> stands for the events of the awaited fade-out.
\<close>

definition sequential_events ::
  "play_outcomes \<Rightarrow> RadioStation \<Rightarrow> event list \<Rightarrow> event list" where
  "sequential_events oc station ramp =
     EvRegisterClick (stationuuid station) (click_ok oc)
     # (if \<not> click_ok oc then []
        else [EvSetSrc Transitional (stationUrl station), EvVolume Transitional 0,
              EvLoad Transitional]
             @ (if \<not> load_ok oc then []
                else ramp
                     @ [EvSetSrc Primary (stationUrl station), EvVolume Primary 0,
                        EvPlay Primary (play_ok oc)]
                     @ (if \<not> play_ok oc then []
                        else [EvVolume Primary 0, EvPause Transitional,
                              EvVolume Transitional 0, EvRemoveSrc Transitional,
                              EvLoad Transitional])))"

section \<open>Station selection\<close>

text \<open>
  Arrays are mutable and shared in JavaScript, so they live in a store: \<open>stationsRef\<close>
  holds the address of the catalog, the spread copy \<open>[...stationsRef.current]\<close>
  allocates a new array, and \<open>splice\<close> changes an array in place.
\<close>

record station_store =
  cells :: "nat \<Rightarrow> RadioStation list"
  next_addr :: nat

definition spread_copy :: "nat \<Rightarrow> station_store \<Rightarrow> nat \<times> station_store" where
  "spread_copy a h =
     (next_addr h,
      h\<lparr>cells := (cells h)(next_addr h := cells h a), next_addr := Suc (next_addr h)\<rparr>)"

definition splice1 :: "nat \<Rightarrow> nat \<Rightarrow> station_store \<Rightarrow> station_store" where
  "splice1 a i h = h\<lparr>cells := (cells h)(a := take i (cells h a) @ drop (Suc i) (cells h a))\<rparr>"

datatype round_result = NoStations | Played RadioStation | Exhausted

text \<open>
  The retry loop of \<open>playRandomStation\<close>. \<open>Math.floor(Math.random() * n)\<close> is some index
  below \<open>n\<close>: the draw of attempt \<open>k\<close> is a natural number \<open>draws k\<close>, taken modulo \<open>n\<close>.
  \<open>ocs k\<close> gives the outcomes of the awaited calls of attempt \<open>k\<close>. Every attempt uses
  the \<open>playStation\<close> of the render that created \<open>playRandomStation\<close>, so the same snapshot.

  The callback \<open>onStationSelected\<close> is optional: \<open>cb\<close> is \<open>None\<close> when it was not
  supplied and \<open>Some throws\<close> when it was, where \<open>throws k\<close> says whether its call in
  attempt \<open>k\<close> throws. The callback is called inside the \<open>try\<close> block, so the \<open>catch\<close>
  block treats an error of the callback like an error of \<open>playStation\<close>: the first
  component of \<open>tried\<close> says whether the \<open>try\<close> block threw.
\<close>

function retry_loop ::
  "AudioPlayerState \<Rightarrow> (nat \<Rightarrow> bool) option \<Rightarrow> (nat \<Rightarrow> nat) \<Rightarrow> (nat \<Rightarrow> play_outcomes)
     \<Rightarrow> nat \<Rightarrow> nat \<Rightarrow> station_store \<Rightarrow> player \<Rightarrow> round_result \<times> station_store \<times> player" where
  "retry_loop snap cb draws ocs availableStations attempts h p =
     (if attempts < 5 \<and> cells h availableStations \<noteq> [] then
        (let randomIndex = draws attempts mod length (cells h availableStations);
             station = cells h availableStations ! randomIndex;
             r = playStation snap (ocs attempts) station (emit (EvPlayStationCall station) p);
             tried =
               (case fst r of
                  Inl e \<Rightarrow> (True, snd r)
                | Inr u \<Rightarrow>
                    (case cb of
                       None \<Rightarrow> (False, snd r)
                     | Some throws \<Rightarrow>
                         (throws attempts, emit (EvStationSelected station) (snd r))))
         in if \<not> fst tried then (Played station, h, snd tried)
            else
              (let p1 = emit (EvAttemptFailed station) (snd tried);
                   h1 = splice1 availableStations randomIndex h;
                   p2 = (if attempts + 1 < 5 \<and> cells h1 availableStations \<noteq> []
                         then emit (EvDelay 1000) p1 else p1)
               in retry_loop snap cb draws ocs availableStations (attempts + 1) h1 p2))
      else (Exhausted, h, emit EvAllAttemptsFailed p))"
  by pat_completeness auto
termination
  by (relation "measure (\<lambda>(snap, cb, draws, ocs, availableStations, attempts, h, p).
                           5 - attempts)") auto

declare retry_loop.simps [simp del]

definition playRandomStation ::
  "AudioPlayerState \<Rightarrow> (nat \<Rightarrow> bool) option \<Rightarrow> (nat \<Rightarrow> nat) \<Rightarrow> (nat \<Rightarrow> play_outcomes) \<Rightarrow> nat
     \<Rightarrow> station_store \<Rightarrow> player \<Rightarrow> round_result \<times> station_store \<times> player" where
  "playRandomStation snap cb draws ocs stationsRef h p =
     (if cells h stationsRef = [] then (NoStations, h, emit EvNoStations p)
      else
        (let (availableStations, h1) = spread_copy stationsRef h
         in retry_loop snap cb draws ocs availableStations 0 h1 p))"

section \<open>Reset of the timer\<close>

text \<open>
  The timer hook with the audio hook it owns. \<open>reset\<close> reads the audio state of the
  render that created it (\<open>view\<close>) and calls \<open>stop\<close> only if that state shows audio
  playing or a current station.
\<close>

record app =
  pomodoro :: PomodoroState
  timerRef :: "nat option"
  audioHook :: player

definition reset :: "PomodoroSettings \<Rightarrow> AudioPlayerState \<Rightarrow> app \<Rightarrow> app" where
  "reset s view a =
     (let a1 = a\<lparr>timerRef := None\<rparr>;
          a2 = (if isPlaying view \<or> currentStation view \<noteq> None
                then a1\<lparr>audioHook := stop (audioHook a1)\<rparr> else a1)
      in a2\<lparr>pomodoro := initialPomodoroState s\<rparr>)"

section \<open>Example inputs\<close>

definition example_station :: RadioStation where
  "example_station =
     \<lparr>stationuuid = ''uuid-1'', name = ''Radio One'', url = ''http://one.example/stream'',
      url_resolved = ''http://one.example/resolved''\<rparr>"

definition example_station_2 :: RadioStation where
  "example_station_2 =
     \<lparr>stationuuid = ''uuid-2'', name = ''Radio Two'', url = ''http://two.example/stream'',
      url_resolved = []\<rparr>"

definition all_ok :: play_outcomes where
  "all_ok = \<lparr>click_result = Inr (), load_ok = True, play_ok = True\<rparr>"

definition load_fails :: play_outcomes where
  "load_fails = \<lparr>click_result = Inr (), load_ok = False, play_ok = True\<rparr>"

text \<open>
  Two servers, neither of which answers: the click registration fails, while the load
  of the station and \<open>play()\<close> would succeed.
\<close>

definition example_api :: RadioAPI where
  "example_api =
     \<lparr>servers = [\<lparr>server_name = ''de1.api.radio-browser.info'',
                   server_url = ''https://de1.api.radio-browser.info''\<rparr>,
                  \<lparr>server_name = ''fi1.api.radio-browser.info'',
                   server_url = ''https://fi1.api.radio-browser.info''\<rparr>],
      currentServerIndex = 0\<rparr>"

definition servers_down :: "string \<Rightarrow> string \<Rightarrow> bool" where
  "servers_down server endpoint = False"

definition click_fails :: play_outcomes where
  "click_fails =
     \<lparr>click_result = fst (registerClick servers_down ''uuid-1'' example_api),
      load_ok = True, play_ok = True\<rparr>"

text \<open>
  A break in which no station played: three seconds before its end \<open>tick\<close> starts
  \<open>stopWithFade(3)\<close>, whose ramp has fired twice.
\<close>

definition example_idle_fading :: player where
  "example_idle_fading = fade_callback (fade_callback (fadeOut 3 mounted))"

definition example_idle_app :: app where
  "example_idle_app =
     \<lparr>pomodoro = \<lparr>phase = ShortBreak, timeRemaining = 3, isRunning = True,
                   completedSessions = 1, currentCycle = 1\<rparr>,
      timerRef = Some 1, audioHook = example_idle_fading\<rparr>"

text \<open>
  The middle of a sequential transition: the new station is current, the flag
  \<open>isCrossfading\<close> is set, and the fade-out of the old stream, started at volume 0.8,
  has brought the primary element to 0.4.
\<close>

definition example_mid_transition :: player where
  "example_mid_transition =
     \<lparr>astate = \<lparr>isPlaying = True, isLoading = False, volume = 4 / 5,
                 currentStation = Some example_station, error = None, isCrossfading = True\<rparr>,
      audioRef = Some \<lparr>src = Some ''http://two.example/stream'', el_volume = 2 / 5,
                        paused = False\<rparr>,
      crossfadeAudioRef = Some \<lparr>src = Some ''http://one.example/resolved'', el_volume = 0,
                                 paused = True\<rparr>,
      fadeIntervalRef = Some \<lparr>dir = FadeOut, baseVolume = 4 / 5, stepTime = 40,
                              currentStep = 26\<rparr>,
      crossfadeIntervalRef = None,
      trace = []\<rparr>"

definition example_mid_app :: app where
  "example_mid_app =
     \<lparr>pomodoro = \<lparr>phase = ShortBreak, timeRemaining = 120, isRunning = True,
                   completedSessions = 1, currentCycle = 1\<rparr>,
      timerRef = Some 1, audioHook = example_mid_transition\<rparr>"

text \<open>A station is playing at the target volume, no ramp is running.\<close>

definition example_playing :: player where
  "example_playing =
     \<lparr>astate = \<lparr>isPlaying = True, isLoading = False, volume = 7 / 10,
                 currentStation = Some example_station_2, error = None,
                 isCrossfading = False\<rparr>,
      audioRef = Some \<lparr>src = Some ''http://two.example/stream'', el_volume = 7 / 10,
                        paused = False\<rparr>,
      crossfadeAudioRef = Some newAudio,
      fadeIntervalRef = None,
      crossfadeIntervalRef = None,
      trace = []\<rparr>"

text \<open>A catalog of two stations at address 0 of the store.\<close>

definition example_store :: station_store where
  "example_store =
     \<lparr>cells = (\<lambda>a. [])(0 := [example_station, example_station_2]), next_addr = 1\<rparr>"


text \<open>A callback that never throws, and one that throws when first called.\<close>

definition never_throws :: "nat \<Rightarrow> bool" where
  "never_throws k = False"



section \<open>Phase transitions\<close>

lemma js_rem_zero_iff:
  "js_rem a b = Some 0 \<longleftrightarrow> b \<noteq> 0 \<and> a mod b = 0"
proof (cases "b = 0")
  case True
  then show ?thesis by (simp add: js_rem_def)
next
  case False
  have "\<bar>a\<bar> mod \<bar>b\<bar> = 0 \<longleftrightarrow> a mod b = 0"
    by (simp add: mod_eq_0_iff_dvd)
  moreover have "a = 0 \<Longrightarrow> a mod b = 0" by simp
  ultimately show ?thesis using False
    by (auto simp: js_rem_def sgn_if)
qed

text \<open>
  Claim C1. For every phase and every completed-sessions count (a count is not
  negative), the phase after \<open>work\<close> is \<open>longBreak\<close> when
  \<open>(completedSessions + 1) mod sessionsUntilLongBreak\<close> is 0 and \<open>shortBreak\<close>
  otherwise, and the phase after \<open>shortBreak\<close> or \<open>longBreak\<close> is \<open>work\<close>. A zero
  \<open>sessionsUntilLongBreak\<close> makes the remainder \<open>NaN\<close> in the code and
  \<open>completedSessions + 1\<close>, which is positive, in HOL: both sides give \<open>shortBreak\<close>.
\<close>

theorem getNextPhase_rule:
  assumes "0 \<le> completed"
  shows "getNextPhase s Work completed =
           (if (completed + 1) mod sessionsUntilLongBreak s = 0 then LongBreak
            else ShortBreak)
         \<and> getNextPhase s ShortBreak completed = Work
         \<and> getNextPhase s LongBreak completed = Work"
proof -
  have "sessionsUntilLongBreak s = 0 \<Longrightarrow> (completed + 1) mod sessionsUntilLongBreak s \<noteq> 0"
    using assms by simp
  then show ?thesis
    by (auto simp: getNextPhase_def js_rem_zero_iff)
qed

theorem getNextPhase_rule_witness:
  "(0::int) \<le> 3
   \<and> getNextPhase DEFAULT_SETTINGS Work 3 = LongBreak
   \<and> getNextPhase DEFAULT_SETTINGS ShortBreak 3 = Work
   \<and> getNextPhase DEFAULT_SETTINGS LongBreak 3 = Work"
proof -
  have h: "(0::int) \<le> 3" by simp
  from getNextPhase_rule [OF h, of DEFAULT_SETTINGS]
  show ?thesis by (simp add: DEFAULT_SETTINGS_def)
qed

section \<open>The tick sequence\<close>

lemma tick_countdown:
  assumes "1 < timeRemaining st"
  shows "tick s audio st =
           ((if timeRemaining st - 1 = 3 then [early_call (phase st)] else []),
            st\<lparr>timeRemaining := timeRemaining st - 1\<rparr>)"
  using assms by (simp add: tick_def early_call_def Let_def)

lemma tick_at_zero:
  assumes "timeRemaining st \<le> 1"
  shows "phase (snd (tick s audio st)) = getNextPhase s (phase st) (completedSessions st)"
    and "timeRemaining (snd (tick s audio st)) =
           getDurationForPhase s (getNextPhase s (phase st) (completedSessions st))"
    and "early_call (phase st) \<notin> set (fst (tick s audio st))"
  using assms by (auto simp: tick_def early_call_def Let_def)

lemma getNextPhase_changes: "getNextPhase s p c \<noteq> p"
  by (cases p) (simp_all add: getNextPhase_def Let_def)

lemma getNextPhase_not_Paused: "getNextPhase s p c \<noteq> Paused"
  by (simp add: getNextPhase_def Let_def)

lemma run_ticks_length: "length (run_ticks s audios st) = length audios"
  by (induction audios arbitrary: st) (simp_all add: Let_def)

lemma run_ticks_nth:
  "k < length audios \<Longrightarrow>
   run_ticks s audios st ! k =
     tick s (audios ! k) (fold (\<lambda>a x. snd (tick s a x)) (take k audios) st)"
proof (induction audios arbitrary: st k)
  case Nil
  then show ?case by simp
next
  case (Cons a audios)
  then show ?case by (cases k) (simp_all add: Let_def)
qed

lemma fold_countdown:
  "int (length audios) < timeRemaining st \<Longrightarrow>
   fold (\<lambda>a x. snd (tick s a x)) audios st =
     st\<lparr>timeRemaining := timeRemaining st - int (length audios)\<rparr>"
proof (induction audios arbitrary: st)
  case Nil
  then show ?case by simp
next
  case (Cons a audios)
  from Cons.prems have t: "1 < timeRemaining st" by simp
  have step: "snd (tick s a st) = st\<lparr>timeRemaining := timeRemaining st - 1\<rparr>"
    using tick_countdown [OF t] by simp
  have "int (length audios) < timeRemaining (st\<lparr>timeRemaining := timeRemaining st - 1\<rparr>)"
    using Cons.prems by simp
  from Cons.IH [OF this] show ?case
    by (simp add: step algebra_simps)
qed

lemma run_ticks_before_end:
  assumes "int k + 1 < timeRemaining st" and "k < length audios"
  shows "run_ticks s audios st ! k =
           ((if timeRemaining st - int k - 1 = 3 then [early_call (phase st)] else []),
            st\<lparr>timeRemaining := timeRemaining st - int k - 1\<rparr>)"
proof -
  let ?x = "st\<lparr>timeRemaining := timeRemaining st - int k\<rparr>"
  have len: "length (take k audios) = k" using assms(2) by simp
  have "fold (\<lambda>a x. snd (tick s a x)) (take k audios) st = ?x"
    using fold_countdown [of "take k audios" st s] assms(1) len by simp
  then have "run_ticks s audios st ! k = tick s (audios ! k) ?x"
    using run_ticks_nth [OF assms(2)] by simp
  moreover have "1 < timeRemaining ?x" using assms(1) by simp
  ultimately show ?thesis
    using tick_countdown [of ?x s "audios ! k"] by simp
qed

lemma run_ticks_at_end:
  assumes "int k + 1 = timeRemaining st" and "k < length audios"
  shows "phase (snd (run_ticks s audios st ! k)) =
           getNextPhase s (phase st) (completedSessions st)"
    and "timeRemaining (snd (run_ticks s audios st ! k)) =
           getDurationForPhase s (getNextPhase s (phase st) (completedSessions st))"
    and "early_call (phase st) \<notin> set (fst (run_ticks s audios st ! k))"
proof -
  let ?x = "st\<lparr>timeRemaining := timeRemaining st - int k\<rparr>"
  have len: "length (take k audios) = k" using assms(2) by simp
  have "fold (\<lambda>a x. snd (tick s a x)) (take k audios) st = ?x"
    using fold_countdown [of "take k audios" st s] assms(1) len by simp
  then have eq: "run_ticks s audios st ! k = tick s (audios ! k) ?x"
    using run_ticks_nth [OF assms(2)] by simp
  have le: "timeRemaining ?x \<le> 1" using assms(1) by simp
  show "phase (snd (run_ticks s audios st ! k)) =
           getNextPhase s (phase st) (completedSessions st)"
    using tick_at_zero(1) [OF le, of s "audios ! k"] eq by simp
  show "timeRemaining (snd (run_ticks s audios st ! k)) =
           getDurationForPhase s (getNextPhase s (phase st) (completedSessions st))"
    using tick_at_zero(2) [OF le, of s "audios ! k"] eq by simp
  show "early_call (phase st) \<notin> set (fst (run_ticks s audios st ! k))"
    using tick_at_zero(3) [OF le, of s "audios ! k"] eq by simp
qed

text \<open>
  Claim C2. In a run of ticks that starts at \<open>timeRemaining = T\<close> with \<open>T > 3\<close> and
  lasts \<open>T\<close> ticks, the tick number \<open>k + 1\<close> leaves \<open>T - (k + 1)\<close> seconds. The early
  call (station search when leaving \<open>work\<close>, a 3-second fade-out otherwise) is issued
  by the tick whose decremented time is 3 and by no other tick, so by exactly one;
  every tick before the last only decrements the time, leaving the phase as it was;
  the last tick, whose decremented time is 0, moves to the next phase with its full
  duration.
\<close>

theorem tick_sequence:
  assumes "3 < timeRemaining st" and "length audios = nat (timeRemaining st)"
  shows "(\<forall>k < length audios.
            (early_call (phase st) \<in> set (fst (run_ticks s audios st ! k)))
              = (timeRemaining st - (int k + 1) = 3))
         \<and> (\<exists>!k. k < length audios
                \<and> early_call (phase st) \<in> set (fst (run_ticks s audios st ! k)))
         \<and> fst (run_ticks s audios st ! (nat (timeRemaining st) - 4))
             = [early_call (phase st)]
         \<and> (\<forall>k < length audios - 1.
              snd (run_ticks s audios st ! k)
                = st\<lparr>timeRemaining := timeRemaining st - (int k + 1)\<rparr>)
         \<and> phase (snd (run_ticks s audios st ! (length audios - 1)))
             = getNextPhase s (phase st) (completedSessions st)
         \<and> phase (snd (run_ticks s audios st ! (length audios - 1))) \<noteq> phase st
         \<and> timeRemaining (snd (run_ticks s audios st ! (length audios - 1)))
             = getDurationForPhase s (getNextPhase s (phase st) (completedSessions st))"
proof -
  let ?T = "timeRemaining st"
  let ?tr = "run_ticks s audios st"
  let ?fires = "\<lambda>k. early_call (phase st) \<in> set (fst (?tr ! k))"
  have len: "int (length audios) = ?T" using assms by simp
  have fires_iff: "?fires k = (?T - (int k + 1) = 3)" if k: "k < length audios" for k
  proof (cases "int k + 1 < ?T")
    case True
    from run_ticks_before_end [OF True k, of s] show ?thesis
      by (simp add: algebra_simps)
  next
    case False
    with k len have e: "int k + 1 = ?T" by simp
    from run_ticks_at_end(3) [OF e k, of s] e show ?thesis by simp
  qed
  have k0: "nat ?T - 4 < length audios" using assms by simp
  have k0_fires: "?fires (nat ?T - 4)"
    using fires_iff [OF k0] assms(1) by (simp add: nat_diff_distrib' of_nat_diff)
  have uniq: "\<exists>!k. k < length audios \<and> ?fires k"
  proof (rule ex1I [of _ "nat ?T - 4"])
    show "nat ?T - 4 < length audios \<and> ?fires (nat ?T - 4)"
      using k0 k0_fires by simp
  next
    fix k assume "k < length audios \<and> ?fires k"
    then have "?T - (int k + 1) = 3" using fires_iff by blast
    then show "k = nat ?T - 4" by simp
  qed
  have at_k0: "fst (?tr ! (nat ?T - 4)) = [early_call (phase st)]"
  proof -
    have lt: "int (nat ?T - 4) + 1 < ?T" using assms(1) by simp
    have three: "?T - int (nat ?T - 4) - 1 = 3" using assms(1) by simp
    from run_ticks_before_end [OF lt k0, of s] three show ?thesis by simp
  qed
  have before: "snd (?tr ! k) = st\<lparr>timeRemaining := ?T - (int k + 1)\<rparr>"
    if k: "k < length audios - 1" for k
  proof -
    have lt: "int k + 1 < ?T" using k len by simp
    have kl: "k < length audios" using k by simp
    from run_ticks_before_end [OF lt kl, of s] show ?thesis
      by (simp add: algebra_simps)
  qed
  have last: "int (length audios - 1) + 1 = ?T" using assms by simp
  have lastlt: "length audios - 1 < length audios" using assms by simp
  note fin = run_ticks_at_end [OF last lastlt, of s]
  show ?thesis
    using fires_iff uniq at_k0 before fin(1) fin(2) getNextPhase_changes [of s "phase st"]
    by simp
qed

theorem tick_sequence_witness:
  "3 < timeRemaining example_state_5
   \<and> length (replicate 5 example_idle_audio) = nat (timeRemaining example_state_5)
   \<and> fst (run_ticks DEFAULT_SETTINGS (replicate 5 example_idle_audio) example_state_5 ! 1)
       = [CallPlayRandomStation]
   \<and> phase (snd (run_ticks DEFAULT_SETTINGS (replicate 5 example_idle_audio)
                    example_state_5 ! 4)) = ShortBreak"
proof -
  have h1: "3 < timeRemaining example_state_5"
    by (simp add: example_state_5_def)
  have h2: "length (replicate 5 example_idle_audio) = nat (timeRemaining example_state_5)"
    by (simp add: example_state_5_def)
  from tick_sequence [OF h1 h2, of DEFAULT_SETTINGS]
  have "fst (run_ticks DEFAULT_SETTINGS (replicate 5 example_idle_audio) example_state_5
              ! (nat (timeRemaining example_state_5) - 4))
          = [early_call (phase example_state_5)]"
    and "phase (snd (run_ticks DEFAULT_SETTINGS (replicate 5 example_idle_audio)
                    example_state_5 ! (length (replicate 5 example_idle_audio) - 1)))
          = getNextPhase DEFAULT_SETTINGS (phase example_state_5)
              (completedSessions example_state_5)"
    by blast+
  then show ?thesis using h1 h2
    by (simp add: example_state_5_def early_call_def getNextPhase_def js_rem_def
        DEFAULT_SETTINGS_def)
qed

text \<open>
  The timer state after a tick or a skip does not depend on the audio state, and the
  outcome of the audio calls they start is never read: a failing station search cannot
  change or delay a transition.
\<close>

lemma tick_state_independent_of_audio: "snd (tick s audio st) = snd (tick s audio' st)"
  by (simp add: tick_def Let_def)

section \<open>Session and cycle counters\<close>

text \<open>
  Claim C5. Every transition of the timer state, by the tick whose decremented time is
  not positive or by \<open>skip\<close>, is either a transition from \<open>work\<close> to a break, which
  adds exactly 1 to \<open>completedSessions\<close> and leaves \<open>currentCycle\<close>, or a transition
  from a break to \<open>work\<close>, which adds exactly 1 to \<open>currentCycle\<close> and leaves
  \<open>completedSessions\<close>; a tick that is not a transition leaves both. The phase
  \<open>paused\<close> of the type is never assigned by the code (\<open>getNextPhase\<close> does not return
  it), so the states considered are those of the other three phases.
\<close>

theorem counters_on_transitions:
  assumes "phase st \<noteq> Paused"
    and "r = snd (skip s st) \<or> (r = snd (tick s audio st) \<and> timeRemaining st - 1 \<le> 0)"
  shows "(phase st = Work \<and> phase r \<in> {ShortBreak, LongBreak}
            \<and> completedSessions r = completedSessions st + 1
            \<and> currentCycle r = currentCycle st)
         \<or> (phase st \<in> {ShortBreak, LongBreak} \<and> phase r = Work
            \<and> completedSessions r = completedSessions st
            \<and> currentCycle r = currentCycle st + 1)"
proof (cases "phase st")
  case Work
  with assms(2) show ?thesis
    by (auto simp: skip_def tick_def getNextPhase_def Let_def)
next
  case ShortBreak
  with assms(2) show ?thesis
    by (auto simp: skip_def tick_def getNextPhase_def Let_def)
next
  case LongBreak
  with assms(2) show ?thesis
    by (auto simp: skip_def tick_def getNextPhase_def Let_def)
next
  case Paused
  with assms(1) show ?thesis by simp
qed

theorem counters_on_transitions_witness:
  "phase example_break_state \<noteq> Paused
   \<and> timeRemaining example_break_state - 1 \<le> 0
   \<and> phase (snd (tick DEFAULT_SETTINGS example_idle_audio example_break_state)) = Work
   \<and> completedSessions (snd (tick DEFAULT_SETTINGS example_idle_audio example_break_state)) = 1
   \<and> currentCycle (snd (tick DEFAULT_SETTINGS example_idle_audio example_break_state)) = 2
   \<and> phase example_state_5 \<noteq> Paused
   \<and> phase (snd (skip DEFAULT_SETTINGS example_state_5)) \<in> {ShortBreak, LongBreak}
   \<and> completedSessions (snd (skip DEFAULT_SETTINGS example_state_5)) = 1
   \<and> currentCycle (snd (skip DEFAULT_SETTINGS example_state_5)) = 1"
proof -
  have h1: "phase example_break_state \<noteq> Paused"
    and h2: "timeRemaining example_break_state - 1 \<le> 0"
    and b: "phase example_break_state = ShortBreak"
       "completedSessions example_break_state = 1" "currentCycle example_break_state = 1"
    by (simp_all add: example_break_state_def)
  have h3: "phase example_state_5 \<noteq> Paused"
    and w: "phase example_state_5 = Work"
       "completedSessions example_state_5 = 0" "currentCycle example_state_5 = 1"
    by (simp_all add: example_state_5_def)
  from counters_on_transitions [OF h1, of
      "snd (tick DEFAULT_SETTINGS example_idle_audio example_break_state)"
      DEFAULT_SETTINGS example_idle_audio] h2 b
  have t: "phase (snd (tick DEFAULT_SETTINGS example_idle_audio example_break_state)) = Work
     \<and> completedSessions (snd (tick DEFAULT_SETTINGS example_idle_audio example_break_state)) = 1
     \<and> currentCycle (snd (tick DEFAULT_SETTINGS example_idle_audio example_break_state)) = 2"
    by simp
  from counters_on_transitions [OF h3, of "snd (skip DEFAULT_SETTINGS example_state_5)"
      DEFAULT_SETTINGS example_idle_audio] w
  have k: "phase (snd (skip DEFAULT_SETTINGS example_state_5)) \<in> {ShortBreak, LongBreak}
     \<and> completedSessions (snd (skip DEFAULT_SETTINGS example_state_5)) = 1
     \<and> currentCycle (snd (skip DEFAULT_SETTINGS example_state_5)) = 1"
    by simp
  from h1 h2 h3 t k show ?thesis by simp
qed
section \<open>Basic facts about the audio operations\<close>

lemmas prim_defs = emit_def upd_el_def el_set_volume_def el_pause_def el_play_def
  el_set_src_def el_remove_src_def el_load_def set_state_def clearFadeInterval_def

lemma fade_callback_astate: "astate (fade_callback p) = astate p"
  by (simp add: fade_callback_def prim_defs split: option.splits fade_dir.splits)

lemma fade_callback_present:
  "(audioRef (fade_callback p) = None) = (audioRef p = None)"
  "(crossfadeAudioRef (fade_callback p) = None) = (crossfadeAudioRef p = None)"
  by (simp_all add: fade_callback_def prim_defs split: option.splits fade_dir.splits)

lemma await_fade_astate: "astate (await_fade p) = astate p"
proof (induction p rule: await_fade.induct)
  case (1 p)
  then show ?case
    by (subst await_fade.simps) (simp add: fade_callback_astate)
qed

lemma await_fade_present:
  "(audioRef (await_fade p) = None) = (audioRef p = None)
   \<and> (crossfadeAudioRef (await_fade p) = None) = (crossfadeAudioRef p = None)"
proof (induction p rule: await_fade.induct)
  case (1 p)
  then show ?case
    by (subst (1 2) await_fade.simps) (simp add: fade_callback_present)
qed

lemma fadeOut_astate: "astate (fadeOut d p) = astate p"
  by (simp add: fadeOut_def prim_defs split: option.splits)

lemma fadeOut_present:
  "(audioRef (fadeOut d p) = None) = (audioRef p = None)"
  "(crossfadeAudioRef (fadeOut d p) = None) = (crossfadeAudioRef p = None)"
  by (simp_all add: fadeOut_def prim_defs split: option.splits)

lemma fadeIn_astate: "astate (fadeIn snap d p) = astate p"
  by (simp add: fadeIn_def prim_defs split: option.splits)

lemma fadeIn_present:
  "(audioRef (fadeIn snap d p) = None) = (audioRef p = None)"
  "(crossfadeAudioRef (fadeIn snap d p) = None) = (crossfadeAudioRef p = None)"
  by (simp_all add: fadeIn_def prim_defs split: option.splits)

lemma play_sequential_astate:
  "volume (astate (snd (play_sequential snap oc station p))) = volume (astate p)"
  "currentStation (astate (snd (play_sequential snap oc station p))) =
     (if click_ok oc then Some station else currentStation (astate p))"
  by (simp_all add: play_sequential_def Let_def prim_defs await_fade_astate fadeOut_astate
      fadeIn_astate)

lemma play_sequential_present:
  "(audioRef (snd (play_sequential snap oc station p)) = None) = (audioRef p = None)"
  "(crossfadeAudioRef (snd (play_sequential snap oc station p)) = None)
     = (crossfadeAudioRef p = None)"
  using await_fade_present
  by (simp_all add: play_sequential_def Let_def prim_defs fadeOut_present fadeIn_present)

lemma play_direct_astate:
  "volume (astate (snd (play_direct snap oc station p))) = volume (astate p)"
  "currentStation (astate (snd (play_direct snap oc station p))) =
     (if click_ok oc then Some station else currentStation (astate p))"
  by (simp_all add: play_direct_def Let_def prim_defs fadeIn_astate)

lemma play_direct_present:
  "(audioRef (snd (play_direct snap oc station p)) = None) = (audioRef p = None)"
  "(crossfadeAudioRef (snd (play_direct snap oc station p)) = None)
     = (crossfadeAudioRef p = None)"
  by (simp_all add: play_direct_def Let_def prim_defs fadeIn_present)


lemma playStation_cases:
  assumes "audioRef p = Some a" and "crossfadeAudioRef p = Some c"
  shows "playStation snap oc station p =
           (let r = (if isPlaying snap \<and> 0 < el_volume a \<and> \<not> paused a
                     then play_sequential snap oc station p
                     else play_direct snap oc station p)
            in case fst r of
                 Inl e \<Rightarrow>
                   (Inl e,
                    set_state (\<lambda>s. s\<lparr>error := Some ''Failed to play radio station'',
                                       isPlaying := False, isLoading := False,
                                       isCrossfading := False\<rparr>) (snd r))
               | Inr u \<Rightarrow> (Inr u, snd r))"
  using assms
  by (simp add: playStation_def Let_def split: prod.splits sum.splits)

lemma playStation_unmounted:
  "audioRef p = None \<or> crossfadeAudioRef p = None \<Longrightarrow> playStation snap oc station p = (Inr (), p)"
  by (auto simp: playStation_def split: option.splits)

lemma playStation_astate:
  "volume (astate (snd (playStation snap oc station p))) = volume (astate p)"
  "audioRef p \<noteq> None \<Longrightarrow> crossfadeAudioRef p \<noteq> None \<Longrightarrow>
   currentStation (astate (snd (playStation snap oc station p))) =
     (if click_ok oc then Some station else currentStation (astate p))"
proof -
  show "volume (astate (snd (playStation snap oc station p))) = volume (astate p)"
  proof (cases "audioRef p = None \<or> crossfadeAudioRef p = None")
    case True
    then show ?thesis by (simp add: playStation_unmounted)
  next
    case False
    then obtain a c where "audioRef p = Some a" "crossfadeAudioRef p = Some c" by auto
    then show ?thesis
      by (simp add: playStation_cases Let_def set_state_def play_sequential_astate
          play_direct_astate split: sum.splits)
  qed
next
  assume "audioRef p \<noteq> None" "crossfadeAudioRef p \<noteq> None"
  then obtain a c where "audioRef p = Some a" "crossfadeAudioRef p = Some c" by auto
  then show "currentStation (astate (snd (playStation snap oc station p))) =
     (if click_ok oc then Some station else currentStation (astate p))"
    by (simp add: playStation_cases Let_def set_state_def play_sequential_astate
        play_direct_astate split: sum.splits)
qed

lemma playStation_present:
  "(audioRef (snd (playStation snap oc station p)) = None) = (audioRef p = None)"
  "(crossfadeAudioRef (snd (playStation snap oc station p)) = None) = (crossfadeAudioRef p = None)"
proof -
  have "(audioRef (snd (playStation snap oc station p)) = None) = (audioRef p = None)
        \<and> (crossfadeAudioRef (snd (playStation snap oc station p)) = None)
            = (crossfadeAudioRef p = None)"
  proof (cases "audioRef p = None \<or> crossfadeAudioRef p = None")
    case True
    then show ?thesis by (simp add: playStation_unmounted)
  next
    case False
    then obtain a c where "audioRef p = Some a" "crossfadeAudioRef p = Some c" by auto
    then show ?thesis
      using play_sequential_present [of snap oc station p]
        play_direct_present [of snap oc station p]
      by (simp add: playStation_cases Let_def set_state_def split: sum.splits)
  qed
  then show "(audioRef (snd (playStation snap oc station p)) = None) = (audioRef p = None)"
    and "(crossfadeAudioRef (snd (playStation snap oc station p)) = None)
           = (crossfadeAudioRef p = None)"
    by simp_all
qed

section \<open>The target volume\<close>

text \<open>
  Claim C10. The field \<open>volume\<close> of the audio state is left as it was by
  \<open>playStation\<close>, \<open>stop\<close>, \<open>stopWithFade\<close>, \<open>pause\<close>, \<open>resume\<close>, \<open>fadeIn\<close> and
  \<open>fadeOut\<close>, whatever the outcomes of their awaited calls, and also by the firings of
  the ramp interval and of the listeners; \<open>setVolume\<close> sets it to its argument clamped
  to the interval from 0 to 1.
\<close>

theorem target_volume_frame:
  "volume (astate (snd (playStation snap oc station p))) = volume (astate p)
   \<and> volume (astate (stop p)) = volume (astate p)
   \<and> volume (astate (stopWithFade d p)) = volume (astate p)
   \<and> volume (astate (pause p)) = volume (astate p)
   \<and> volume (astate (resume snap ok p)) = volume (astate p)
   \<and> volume (astate (fadeIn snap d p)) = volume (astate p)
   \<and> volume (astate (fadeOut d p)) = volume (astate p)
   \<and> volume (astate (fade_callback p)) = volume (astate p)
   \<and> volume (astate (handle_event ev p)) = volume (astate p)
   \<and> volume (astate (setVolume snap v p)) = max 0 (min 1 v)"
  by (simp add: playStation_astate(1) stop_def stopWithFade_def pause_def resume_def
      fadeIn_astate fadeOut_astate fade_callback_astate handle_event_def setVolume_def
      await_fade_astate Let_def prim_defs split: option.splits media_event.splits)

section \<open>Click registration\<close>

text \<open>
  Claim C9, as stated, fails: with both elements present and a station whose load and
  \<open>play()\<close> would succeed, a failing click registration makes \<open>playStation\<close> throw; the
  source of the primary element is never set and nothing is loaded or played.
\<close>

theorem click_failure_blocks_playback:
  "click_result click_fails = Inl (RequestFailed ''https://fi1.api.radio-browser.info'')
   \<and> load_ok click_fails \<and> play_ok click_fails
   \<and> fst (playStation initialAudioState click_fails example_station mounted) = Inl ClickFailed
   \<and> trace (snd (playStation initialAudioState click_fails example_station mounted))
       = [EvPause Primary, EvVolume Primary 0, EvRegisterClick ''uuid-1'' False]
   \<and> audioRef (snd (playStation initialAudioState click_fails example_station mounted))
       = Some \<lparr>src = None, el_volume = 0, paused = True\<rparr>"
proof -
  have c: "click_result click_fails = Inl (RequestFailed ''https://fi1.api.radio-browser.info'')"
    by (simp add: click_fails_def registerClick_def makeRequest_def example_api_def
        servers_down_def getCurrentServer_def rotateServer_def numeral_2_eq_2)
  then have n: "\<not> click_ok click_fails" by (simp add: click_ok_def)
  have o: "load_ok click_fails" "play_ok click_fails" by (simp_all add: click_fails_def)
  show ?thesis
    using c n o
    by (simp add: playStation_def play_direct_def mounted_def unmounted_def newAudio_def
        initialAudioState_def example_station_def Let_def prim_defs)
qed

text \<open>
  Claim C9, amended. The click registration is awaited inside the \<open>try\<close> block of
  \<open>playStation\<close>, before the source of the station is set: if it fails, the call
  throws \<open>ClickFailed\<close> after recording the error in the state, and its only calls on
  the collaborators are the failed registration and, in the branch taken while nothing
  plays, the pause and the zero volume that precede it; no source is set, nothing is
  loaded and nothing is played.
\<close>

theorem click_failure_aborts_playStation:
  assumes "audioRef p = Some a" and "crossfadeAudioRef p = Some c" and "\<not> click_ok oc"
  shows "fst (playStation snap oc station p) = Inl ClickFailed
         \<and> trace (snd (playStation snap oc station p))
             = trace p
               @ (if isPlaying snap \<and> 0 < el_volume a \<and> \<not> paused a then []
                  else [EvPause Primary, EvVolume Primary 0])
               @ [EvRegisterClick (stationuuid station) False]
         \<and> Option.bind (audioRef (snd (playStation snap oc station p))) src = src a
         \<and> crossfadeAudioRef (snd (playStation snap oc station p)) = Some c
         \<and> error (astate (snd (playStation snap oc station p)))
             = Some ''Failed to play radio station''
         \<and> currentStation (astate (snd (playStation snap oc station p)))
             = currentStation (astate p)"
  using assms
  by (simp add: playStation_cases play_sequential_def play_direct_def Let_def prim_defs)

theorem click_failure_aborts_playStation_witness:
  "audioRef mounted = Some newAudio \<and> crossfadeAudioRef mounted = Some newAudio
   \<and> \<not> click_ok click_fails
   \<and> fst (playStation initialAudioState click_fails example_station_2 mounted)
       = Inl ClickFailed
   \<and> error (astate (snd (playStation initialAudioState click_fails example_station_2 mounted)))
       = Some ''Failed to play radio station''"
proof -
  have h1: "audioRef mounted = Some newAudio"
    and h2: "crossfadeAudioRef mounted = Some newAudio"
    by (simp_all add: mounted_def unmounted_def)
  have h3: "\<not> click_ok click_fails"
    by (simp add: click_ok_def click_fails_def registerClick_def makeRequest_def
        example_api_def servers_down_def getCurrentServer_def rotateServer_def numeral_2_eq_2)
  from click_failure_aborts_playStation [OF h1 h2 h3, of initialAudioState example_station_2]
  show ?thesis using h1 h2 h3 by simp
qed

section \<open>The current-station reference\<close>

lemma apply_op_present:
  "(audioRef (apply_op x p) = None) = (audioRef p = None)
   \<and> (crossfadeAudioRef (apply_op x p) = None) = (crossfadeAudioRef p = None)"
proof (cases x)
  case (OpPlayStation snap oc station)
  then show ?thesis by (simp add: playStation_present)
next
  case (OpStopWithFade d)
  then show ?thesis
    using await_fade_present [of "fadeOut d p"]
    by (simp add: stopWithFade_def Let_def prim_defs fadeOut_present split: option.splits)
next
  case (OpCrossfadeCallback)
  then show ?thesis
    by (cases "crossfadeIntervalRef p")
       (auto simp: crossfade_callback_def prim_defs split: slot.splits)
next
  case (OpMediaEvent ev)
  then show ?thesis
    by (cases ev) (simp_all add: handle_event_def prim_defs)
qed (simp_all add: stop_def pause_def resume_def setVolume_def fadeIn_present fadeOut_present
      crossfade_def fade_callback_present Let_def prim_defs split: option.splits)

lemma apply_op_currentStation:
  assumes "audioRef p \<noteq> None" and "crossfadeAudioRef p \<noteq> None"
  shows "(currentStation (astate (apply_op x p)) \<noteq> None)
           = load_begun_step x (currentStation (astate p) \<noteq> None)"
proof (cases x)
  case (OpPlayStation snap oc station)
  then show ?thesis using assms by (simp add: playStation_astate(2))
next
  case (OpStop)
  then show ?thesis using assms by (auto simp: stop_def prim_defs)
next
  case (OpStopWithFade d)
  then show ?thesis
    by (simp add: stopWithFade_def Let_def prim_defs split: option.splits)
next
  case (OpCrossfadeCallback)
  then show ?thesis
    by (cases "crossfadeIntervalRef p")
       (auto simp: crossfade_callback_def prim_defs split: slot.splits)
next
  case (OpMediaEvent ev)
  then show ?thesis
    by (cases ev) (simp_all add: handle_event_def prim_defs)
qed (simp_all add: pause_def resume_def setVolume_def fadeIn_astate fadeOut_astate
      crossfade_def fade_callback_astate Let_def prim_defs split: option.splits)

lemma fold_apply_op_currentStation:
  "audioRef p \<noteq> None \<Longrightarrow> crossfadeAudioRef p \<noteq> None \<Longrightarrow>
   (currentStation (astate (fold apply_op ops p)) \<noteq> None)
     = fold load_begun_step ops (currentStation (astate p) \<noteq> None)"
proof (induction ops arbitrary: p)
  case Nil
  then show ?case by simp
next
  case (Cons x ops)
  have "audioRef (apply_op x p) \<noteq> None" "crossfadeAudioRef (apply_op x p) \<noteq> None"
    using Cons.prems apply_op_present [of x p] by simp_all
  from Cons.IH [OF this] show ?case
    using apply_op_currentStation [OF Cons.prems, of x] by simp
qed

text \<open>
  Claim C6, as stated, fails: on the mounted hook, a \<open>playStation\<close> whose click
  registration succeeds and whose load fails throws \<open>LoadFailed\<close> before \<open>play()\<close> is
  called, no station has been loaded since the last stop, and the current-station
  reference is the station of the failed call.
\<close>

theorem failed_load_leaves_current_station:
  "fst (playStation initialAudioState load_fails example_station mounted) = Inl LoadFailed
   \<and> EvPlay Primary True
       \<notin> set (trace (snd (playStation initialAudioState load_fails example_station mounted)))
   \<and> \<not> loaded_since_stop [OpPlayStation initialAudioState load_fails example_station]
   \<and> currentStation
        (astate (run_ops [OpPlayStation initialAudioState load_fails example_station] mounted))
       = Some example_station"
  by (simp add: run_ops_def loaded_since_stop_def playStation_def play_direct_def
      mounted_def unmounted_def newAudio_def initialAudioState_def load_fails_def
      click_ok_def Let_def prim_defs)

text \<open>
  Claim C6, amended. \<open>playStation\<close> records its station as current once the click
  registration has succeeded, before the outcome of the load is known, and no error
  path clears it. So after every sequence of steps on the mounted hook the
  current-station reference is non-null if and only if some \<open>playStation\<close> got past its
  click registration since the last \<open>stop\<close> or \<open>stopWithFade\<close>; in particular, after a
  \<open>playStation\<close> whose load fails, the call has thrown and the reference is the station
  of that call.
\<close>

theorem current_station_invariant:
  "((currentStation (astate (run_ops ops mounted)) \<noteq> None) = load_begun_since_stop ops)
   \<and> (audioRef p \<noteq> None \<and> crossfadeAudioRef p \<noteq> None \<and> click_ok oc \<and> \<not> load_ok oc
        \<longrightarrow> fst (playStation snap oc station p) = Inl LoadFailed
            \<and> currentStation (astate (snd (playStation snap oc station p))) = Some station)"
proof -
  have m: "audioRef mounted \<noteq> None" "crossfadeAudioRef mounted \<noteq> None"
    "currentStation (astate mounted) = None"
    by (simp_all add: mounted_def unmounted_def initialAudioState_def)
  have inv: "(currentStation (astate (run_ops ops mounted)) \<noteq> None) = load_begun_since_stop ops"
    using fold_apply_op_currentStation [OF m(1) m(2), of ops] m(3)
    by (simp add: run_ops_def load_begun_since_stop_def)
  have fail: "fst (playStation snap oc station p) = Inl LoadFailed
            \<and> currentStation (astate (snd (playStation snap oc station p))) = Some station"
    if h: "audioRef p \<noteq> None" "crossfadeAudioRef p \<noteq> None" "click_ok oc" "\<not> load_ok oc"
  proof -
    from h obtain a c where ac: "audioRef p = Some a" "crossfadeAudioRef p = Some c" by auto
    have "fst (playStation snap oc station p) = Inl LoadFailed"
      using h(3,4) by (simp add: playStation_cases [OF ac] play_sequential_def
          play_direct_def Let_def)
    then show ?thesis using playStation_astate(2) [OF h(1) h(2)] h(3) by simp
  qed
  from inv fail show ?thesis by blast
qed

theorem current_station_invariant_witness:
  "audioRef mounted \<noteq> None \<and> crossfadeAudioRef mounted \<noteq> None
   \<and> click_ok load_fails \<and> \<not> load_ok load_fails
   \<and> fst (playStation initialAudioState load_fails example_station_2 mounted) = Inl LoadFailed
   \<and> currentStation (astate (snd (playStation initialAudioState load_fails example_station_2
        mounted))) = Some example_station_2
   \<and> currentStation (astate (run_ops
        [OpPlayStation initialAudioState load_fails example_station_2, OpStop] mounted)) = None"
proof -
  have h: "audioRef mounted \<noteq> None \<and> crossfadeAudioRef mounted \<noteq> None
     \<and> click_ok load_fails \<and> \<not> load_ok load_fails"
    by (simp add: mounted_def unmounted_def load_fails_def click_ok_def)
  have b: "\<not> load_begun_since_stop
               [OpPlayStation initialAudioState load_fails example_station_2, OpStop]"
    by (simp add: load_begun_since_stop_def)
  from current_station_invariant
         [of "[OpPlayStation initialAudioState load_fails example_station_2, OpStop]"
             mounted load_fails initialAudioState example_station_2]
  show ?thesis using h b by simp
qed

section \<open>Reset while a ramp is running\<close>

lemma fade_callback_idle: "fadeIntervalRef p = None \<Longrightarrow> fade_callback p = p"
  by (simp add: fade_callback_def)

lemma fade_callbacks_idle: "fadeIntervalRef p = None \<Longrightarrow> (fade_callback ^^ n) p = p"
  by (induction n) (simp_all add: fade_callback_idle)

text \<open>
  Claim C7, as stated, fails: \<open>reset\<close> calls \<open>stop\<close> only when the audio state it sees
  shows audio playing or a current station. In a break in which no station played, the
  ramp of \<open>stopWithFade(3)\<close> is running while the state shows neither; \<open>reset\<close> then
  leaves the interval scheduled, and its next firing sets the volume once more.
\<close>

theorem reset_leaves_idle_ramp_running:
  "fadeIntervalRef (audioHook example_idle_app) \<noteq> None
   \<and> fadeIntervalRef
        (audioHook (reset DEFAULT_SETTINGS (astate (audioHook example_idle_app)) example_idle_app))
       \<noteq> None
   \<and> trace (fade_callback
        (audioHook (reset DEFAULT_SETTINGS (astate (audioHook example_idle_app)) example_idle_app)))
       = trace
           (audioHook (reset DEFAULT_SETTINGS (astate (audioHook example_idle_app)) example_idle_app))
         @ [EvVolume Primary 0]"
  by (simp add: reset_def example_idle_app_def example_idle_fading_def fadeOut_def
      fade_callback_def mounted_def unmounted_def newAudio_def initialAudioState_def Let_def
      prim_defs)

text \<open>
  Claim C7, amended. If \<open>reset\<close> is called on the mounted hook while a fade ramp is
  running and the audio state it sees shows audio playing or a current station (for
  example in the middle of a sequential transition, primary element at volume 0.4,
  \<open>isCrossfading\<close> set), then the resulting audio state has no current station and is
  not playing, the primary element is paused at volume 0, and the interval of the ramp
  is cleared: no further firing of it changes anything.
\<close>

theorem reset_cancels_fade:
  assumes "fadeIntervalRef (audioHook a) \<noteq> None"
    and "audioRef (audioHook a) = Some e"
    and "isPlaying view \<or> currentStation view \<noteq> None"
  shows "currentStation (astate (audioHook (reset s view a))) = None
         \<and> isPlaying (astate (audioHook (reset s view a))) = False
         \<and> audioRef (audioHook (reset s view a)) = Some (e\<lparr>el_volume := 0, paused := True\<rparr>)
         \<and> fadeIntervalRef (audioHook (reset s view a)) = None
         \<and> (\<forall>n. (fade_callback ^^ n) (audioHook (reset s view a)) = audioHook (reset s view a))"
proof -
  have r: "audioHook (reset s view a) = stop (audioHook a)"
    using assms(3) by (auto simp: reset_def Let_def)
  have none: "fadeIntervalRef (stop (audioHook a)) = None"
    using assms(2) by (simp add: stop_def prim_defs)
  show ?thesis
    using assms(2) none fade_callbacks_idle [OF none]
    by (simp add: r) (simp add: stop_def prim_defs)
qed

theorem reset_cancels_fade_witness:
  "fadeIntervalRef (audioHook example_mid_app) \<noteq> None
   \<and> isPlaying (astate example_mid_transition)
   \<and> isCrossfading (astate example_mid_transition)
   \<and> Option.bind (audioRef example_mid_transition) (\<lambda>e. Some (el_volume e)) = Some (2 / 5)
   \<and> currentStation (astate (audioHook
        (reset DEFAULT_SETTINGS (astate example_mid_transition) example_mid_app))) = None
   \<and> isPlaying (astate (audioHook
        (reset DEFAULT_SETTINGS (astate example_mid_transition) example_mid_app))) = False
   \<and> fadeIntervalRef (audioHook
        (reset DEFAULT_SETTINGS (astate example_mid_transition) example_mid_app)) = None"
proof -
  have h1: "fadeIntervalRef (audioHook example_mid_app) \<noteq> None"
    by (simp add: example_mid_app_def example_mid_transition_def)
  have h2: "audioRef (audioHook example_mid_app)
              = Some \<lparr>src = Some ''http://two.example/stream'', el_volume = 2 / 5,
                      paused = False\<rparr>"
    by (simp add: example_mid_app_def example_mid_transition_def)
  have h3: "isPlaying (astate example_mid_transition)
              \<or> currentStation (astate example_mid_transition) \<noteq> None"
    by (simp add: example_mid_transition_def)
  have more: "isPlaying (astate example_mid_transition)"
    "isCrossfading (astate example_mid_transition)"
    "Option.bind (audioRef example_mid_transition) (\<lambda>e. Some (el_volume e)) = Some (2 / 5)"
    by (simp_all add: example_mid_transition_def)
  from reset_cancels_fade [OF h1 h2 h3, of DEFAULT_SETTINGS]
  show ?thesis using h1 h3 more by simp
qed

section \<open>The sequential transition\<close>

lemma replay_primary_append:
  "replay_primary a (xs @ ys) = replay_primary (replay_primary a xs) ys"
  by (simp add: replay_primary_def)

lemma replay_primary_Cons:
  "replay_primary a (e # es) = replay_primary (primary_after e a) es"
  by (simp add: replay_primary_def)

lemma replay_primary_Nil: "replay_primary a [] = a"
  by (simp add: replay_primary_def)

lemma silent_switch_append:
  "silent_switch a (xs @ ys) = (silent_switch a xs \<and> silent_switch (replay_primary a xs) ys)"
  by (induction xs arbitrary: a) (auto simp: replay_primary_Cons replay_primary_Nil)

lemma ramp_event_cases:
  assumes "is_ramp_event e"
  obtains v where "e = EvVolume Primary v" | "e = EvPause Primary"
  using assms by (cases e rule: is_ramp_event.cases) simp_all

lemma ramp_events_silent: "list_all is_ramp_event evs \<Longrightarrow> silent_switch a evs"
proof (induction evs arbitrary: a)
  case Nil
  then show ?case by simp
next
  case (Cons e evs)
  then have "is_ramp_event e" by simp
  then have "switch_ok a e" by (rule ramp_event_cases) simp_all
  with Cons show ?case by simp
qed

lemma fade_callback_trace:
  "\<exists>evs. trace (fade_callback p) = trace p @ evs \<and> list_all is_ramp_event evs"
  by (cases "fadeIntervalRef p")
     (auto simp: fade_callback_def prim_defs split: fade_dir.splits)

lemma fade_callbacks_trace:
  "\<exists>evs. trace ((fade_callback ^^ n) p) = trace p @ evs \<and> list_all is_ramp_event evs"
proof (induction n)
  case 0
  then show ?case by simp
next
  case (Suc n)
  then obtain evs where e: "trace ((fade_callback ^^ n) p) = trace p @ evs"
    "list_all is_ramp_event evs" by blast
  obtain evs' where e': "trace (fade_callback ((fade_callback ^^ n) p))
      = trace ((fade_callback ^^ n) p) @ evs'" "list_all is_ramp_event evs'"
    using fade_callback_trace by blast
  have "trace ((fade_callback ^^ Suc n) p) = trace p @ (evs @ evs')"
    using e(1) e'(1) by simp
  moreover have "list_all is_ramp_event (evs @ evs')" using e(2) e'(2) by simp
  ultimately show ?case by blast
qed

text \<open>
  The fade-out awaited to its end: it only issues ramp events, and it leaves the primary
  element at volume 0 and paused, everything else as it was.
\<close>

lemma await_fade_out:
  "fadeIntervalRef p = Some t \<Longrightarrow> dir t = FadeOut \<Longrightarrow> audioRef p = Some a \<Longrightarrow>
   \<exists>ramp. list_all is_ramp_event ramp
     \<and> replay_primary a ramp = a\<lparr>el_volume := 0, paused := True\<rparr>
     \<and> await_fade p =
         p\<lparr>audioRef := Some (a\<lparr>el_volume := 0, paused := True\<rparr>),
           fadeIntervalRef := None, trace := trace p @ ramp\<rparr>"
proof (induction p arbitrary: t a rule: await_fade.induct)
  case (1 p)
  show ?case
  proof (cases "50 \<le> currentStep t")
    case True
    have fc: "fade_callback p =
        p\<lparr>audioRef := Some (a\<lparr>el_volume := 0, paused := True\<rparr>),
          fadeIntervalRef := None, trace := trace p @ [EvVolume Primary 0, EvPause Primary]\<rparr>"
      using "1.prems" True by (simp add: fade_callback_def prim_defs)
    have "await_fade p = fade_callback p"
      using "1.prems"(1) fc
      by (subst await_fade.simps, subst await_fade.simps) simp
    then show ?thesis using fc
      by (intro exI [of _ "[EvVolume Primary 0, EvPause Primary]"])
         (simp add: replay_primary_def)
  next
    case False
    let ?v = "max (baseVolume t - baseVolume t / 50 * of_nat (currentStep t)) 0"
    let ?t' = "t\<lparr>currentStep := Suc (currentStep t)\<rparr>"
    let ?a' = "a\<lparr>el_volume := ?v\<rparr>"
    have fc: "fade_callback p =
        p\<lparr>audioRef := Some ?a', fadeIntervalRef := Some ?t',
          trace := trace p @ [EvVolume Primary ?v]\<rparr>"
      using "1.prems" False by (simp add: fade_callback_def prim_defs)
    have ne: "fadeIntervalRef p \<noteq> None" using "1.prems"(1) by simp
    have "\<exists>ramp. list_all is_ramp_event ramp
       \<and> replay_primary ?a' ramp = ?a'\<lparr>el_volume := 0, paused := True\<rparr>
       \<and> await_fade (fade_callback p) =
           (fade_callback p)\<lparr>audioRef := Some (?a'\<lparr>el_volume := 0, paused := True\<rparr>),
             fadeIntervalRef := None, trace := trace (fade_callback p) @ ramp\<rparr>"
      using "1.IH" [OF ne, of ?t' ?a'] "1.prems"(2) fc by simp
    then obtain ramp where r: "list_all is_ramp_event ramp"
      "replay_primary ?a' ramp = ?a'\<lparr>el_volume := 0, paused := True\<rparr>"
      "await_fade (fade_callback p) =
           (fade_callback p)\<lparr>audioRef := Some (?a'\<lparr>el_volume := 0, paused := True\<rparr>),
             fadeIntervalRef := None, trace := trace (fade_callback p) @ ramp\<rparr>"
      by blast
    have "await_fade p = await_fade (fade_callback p)"
      using "1.prems"(1) by (subst await_fade.simps) simp
    then have "await_fade p =
         p\<lparr>audioRef := Some (a\<lparr>el_volume := 0, paused := True\<rparr>),
           fadeIntervalRef := None, trace := trace p @ (EvVolume Primary ?v # ramp)\<rparr>"
      using r(3) fc by simp
    moreover have "replay_primary a (EvVolume Primary ?v # ramp)
        = a\<lparr>el_volume := 0, paused := True\<rparr>"
      using r(2) by (simp add: replay_primary_Cons)
    moreover have "list_all is_ramp_event (EvVolume Primary ?v # ramp)"
      using r(1) by simp
    ultimately show ?thesis by blast
  qed
qed


lemma play_sequential_run:
  assumes "audioRef p = Some a" and "crossfadeAudioRef p = Some c"
  shows "\<exists>ramp. list_all is_ramp_event ramp
           \<and> replay_primary a ramp = a\<lparr>el_volume := 0, paused := True\<rparr>
           \<and> trace (snd (play_sequential snap oc station p))
               = trace p @ sequential_events oc station ramp
           \<and> (click_ok oc \<and> load_ok oc \<and> play_ok oc \<longrightarrow>
                fst (play_sequential snap oc station p) = Inr ()
                \<and> audioRef (snd (play_sequential snap oc station p))
                    = Some \<lparr>src = Some (stationUrl station), el_volume = 0, paused = False\<rparr>
                \<and> fadeIntervalRef (snd (play_sequential snap oc station p))
                    = Some \<lparr>dir = FadeIn, baseVolume = volume snap, stepTime = 40,
                            currentStep = 0\<rparr>)"
proof -
  let ?p5 = "el_load Transitional
     (set_state (\<lambda>s. s\<lparr>currentStation := Some station, error := None,
                        isLoading := True, isCrossfading := True\<rparr>)
        (el_set_volume Transitional 0
           (el_set_src Transitional (stationUrl station)
              (emit (EvRegisterClick (stationuuid station) (click_ok oc)) p))))"
  let ?p6 = "set_state (\<lambda>s. s\<lparr>isLoading := False\<rparr>) ?p5"
  let ?q = "fadeOut 2 ?p6"
  have q1: "fadeIntervalRef ?q
      = Some \<lparr>dir = FadeOut, baseVolume = el_volume a, stepTime = 40, currentStep = 0\<rparr>"
    and q2: "audioRef ?q = Some a"
    using assms by (simp_all add: fadeOut_def prim_defs)
  from await_fade_out [OF q1 _ q2]
  obtain ramp where r: "list_all is_ramp_event ramp"
    "replay_primary a ramp = a\<lparr>el_volume := 0, paused := True\<rparr>"
    "await_fade ?q =
       ?q\<lparr>audioRef := Some (a\<lparr>el_volume := 0, paused := True\<rparr>),
         fadeIntervalRef := None, trace := trace ?q @ ramp\<rparr>"
    by auto
  have "trace (snd (play_sequential snap oc station p))
               = trace p @ sequential_events oc station ramp
        \<and> (click_ok oc \<and> load_ok oc \<and> play_ok oc \<longrightarrow>
                fst (play_sequential snap oc station p) = Inr ()
                \<and> audioRef (snd (play_sequential snap oc station p))
                    = Some \<lparr>src = Some (stationUrl station), el_volume = 0, paused = False\<rparr>
                \<and> fadeIntervalRef (snd (play_sequential snap oc station p))
                    = Some \<lparr>dir = FadeIn, baseVolume = volume snap, stepTime = 40,
                            currentStep = 0\<rparr>)"
    apply (simp only: play_sequential_def Let_def r(3))
    using assms
    apply (simp add: sequential_events_def fadeOut_def fadeIn_def prim_defs)
    done
  with r(1,2) show ?thesis by blast
qed

lemma playStation_sequential_run:
  assumes "audioRef p = Some a" and "crossfadeAudioRef p = Some c"
    and "isPlaying snap \<and> 0 < el_volume a \<and> \<not> paused a"
  shows "trace (snd (playStation snap oc station p))
           = trace (snd (play_sequential snap oc station p))"
    and "audioRef (snd (playStation snap oc station p))
           = audioRef (snd (play_sequential snap oc station p))"
    and "fadeIntervalRef (snd (playStation snap oc station p))
           = fadeIntervalRef (snd (play_sequential snap oc station p))"
    and "fst (playStation snap oc station p) = fst (play_sequential snap oc station p)"
  using assms(3)
  by (simp_all add: playStation_cases [OF assms(1,2)] Let_def set_state_def split: sum.splits)


text \<open>
  Claim C4. When \<open>playStation\<close> is called while audio is playing (the sequential
  transition), then for every outcome of its awaited calls and every number of later
  firings of the fade-in interval, the calls made on the two elements satisfy
  \<open>silent_switch\<close>: the transitional element is never played and never given a
  positive volume, and the source of the primary element is switched only when the
  primary element has reached volume 0 and is paused. The new stream therefore gets a
  positive volume only after the old one was silenced. When all awaited calls succeed,
  the switch happens and leaves the primary element playing the new source at volume
  0, with the fade-in scheduled.
\<close>

theorem sequential_transition_never_overlaps:
  assumes "audioRef p = Some a" and "crossfadeAudioRef p = Some c"
    and "isPlaying snap \<and> 0 < el_volume a \<and> \<not> paused a"
  shows "take (length (trace p))
           (trace ((fade_callback ^^ n) (snd (playStation snap oc station p)))) = trace p
         \<and> silent_switch a
             (drop (length (trace p))
                (trace ((fade_callback ^^ n) (snd (playStation snap oc station p)))))
         \<and> (click_ok oc \<and> load_ok oc \<and> play_ok oc \<longrightarrow>
              fst (playStation snap oc station p) = Inr ()
              \<and> EvSetSrc Primary (stationUrl station)
                  \<in> set (drop (length (trace p)) (trace (snd (playStation snap oc station p))))
              \<and> audioRef (snd (playStation snap oc station p))
                  = Some \<lparr>src = Some (stationUrl station), el_volume = 0, paused = False\<rparr>
              \<and> fadeIntervalRef (snd (playStation snap oc station p))
                  = Some \<lparr>dir = FadeIn, baseVolume = volume snap, stepTime = 40,
                          currentStep = 0\<rparr>)"
proof -
  let ?p' = "snd (playStation snap oc station p)"
  note eqs = playStation_sequential_run [OF assms, of oc station]
  from play_sequential_run [OF assms(1,2), of snap oc station]
  obtain ramp where r: "list_all is_ramp_event ramp"
    "replay_primary a ramp = a\<lparr>el_volume := 0, paused := True\<rparr>"
    "trace (snd (play_sequential snap oc station p)) = trace p @ sequential_events oc station ramp"
    "click_ok oc \<and> load_ok oc \<and> play_ok oc \<longrightarrow>
       fst (play_sequential snap oc station p) = Inr ()
       \<and> audioRef (snd (play_sequential snap oc station p))
           = Some \<lparr>src = Some (stationUrl station), el_volume = 0, paused = False\<rparr>
       \<and> fadeIntervalRef (snd (play_sequential snap oc station p))
           = Some \<lparr>dir = FadeIn, baseVolume = volume snap, stepTime = 40, currentStep = 0\<rparr>"
    by blast
  have tr: "trace ?p' = trace p @ sequential_events oc station ramp"
    using eqs(1) r(3) by simp
  obtain later where l: "trace ((fade_callback ^^ n) ?p') = trace ?p' @ later"
    "list_all is_ramp_event later"
    using fade_callbacks_trace [of n ?p'] by blast
  have all: "trace ((fade_callback ^^ n) ?p')
      = trace p @ (sequential_events oc station ramp @ later)"
    using l(1) tr by simp
  have seq: "silent_switch a (sequential_events oc station ramp)"
    using r(1,2)
    by (simp add: sequential_events_def silent_switch_append ramp_events_silent)
  have sil: "silent_switch a (sequential_events oc station ramp @ later)"
    using seq l(2) by (simp add: silent_switch_append ramp_events_silent)
  have sw: "click_ok oc \<and> load_ok oc \<and> play_ok oc \<longrightarrow>
      EvSetSrc Primary (stationUrl station) \<in> set (sequential_events oc station ramp)"
    by (simp add: sequential_events_def)
  show ?thesis
    using all sil sw tr r(4) eqs(2,3,4) by simp
qed

theorem sequential_transition_never_overlaps_witness:
  "audioRef example_playing
     = Some \<lparr>src = Some ''http://two.example/stream'', el_volume = 7 / 10, paused = False\<rparr>
   \<and> crossfadeAudioRef example_playing = Some newAudio
   \<and> isPlaying (astate example_playing)
   \<and> silent_switch
        \<lparr>src = Some ''http://two.example/stream'', el_volume = 7 / 10, paused = False\<rparr>
        (drop (length (trace example_playing))
           (trace ((fade_callback ^^ 10)
              (snd (playStation (astate example_playing) all_ok example_station
                      example_playing)))))
   \<and> audioRef (snd (playStation (astate example_playing) all_ok example_station
                      example_playing))
       = Some \<lparr>src = Some (stationUrl example_station), el_volume = 0, paused = False\<rparr>"
proof -
  have h1: "audioRef example_playing
     = Some \<lparr>src = Some ''http://two.example/stream'', el_volume = 7 / 10, paused = False\<rparr>"
    and h2: "crossfadeAudioRef example_playing = Some newAudio"
    by (simp_all add: example_playing_def)
  have h3: "isPlaying (astate example_playing)
      \<and> 0 < el_volume \<lparr>src = Some ''http://two.example/stream'', el_volume = 7 / 10,
                        paused = False\<rparr>
      \<and> \<not> paused \<lparr>src = Some ''http://two.example/stream'', el_volume = 7 / 10,
                     paused = False\<rparr>"
    by (simp add: example_playing_def)
  have ok: "click_ok all_ok \<and> load_ok all_ok \<and> play_ok all_ok"
    by (simp add: all_ok_def click_ok_def)
  from sequential_transition_never_overlaps [OF h1 h2 h3, of 10 all_ok example_station] ok
  show ?thesis using h1 h2 h3 by simp
qed

section \<open>Station selection\<close>

lemma ramp_events_media: "list_all is_ramp_event evs \<Longrightarrow> list_all is_media_event evs"
proof (induction evs)
  case Nil
  then show ?case by simp
next
  case (Cons e evs)
  then have "is_ramp_event e" by simp
  then have "is_media_event e" by (rule ramp_event_cases) simp_all
  with Cons show ?case by simp
qed

lemma ramp_events_no_play: "list_all is_ramp_event evs \<Longrightarrow> EvPlay Primary True \<notin> set evs"
proof (induction evs)
  case Nil
  then show ?case by simp
next
  case (Cons e evs)
  then have "is_ramp_event e" by simp
  then have "e \<noteq> EvPlay Primary True" by (rule ramp_event_cases) simp_all
  with Cons show ?case by simp
qed

lemma play_sequential_result:
  "fst (play_sequential snap oc station p) =
     (if \<not> click_ok oc then Inl ClickFailed
      else if \<not> load_ok oc then Inl LoadFailed
      else if \<not> play_ok oc then Inl PlayRejected else Inr ())"
  by (simp add: play_sequential_def Let_def)

lemma play_direct_run:
  "fst (play_direct snap oc station p) =
     (if \<not> click_ok oc then Inl ClickFailed
      else if \<not> load_ok oc then Inl LoadFailed
      else if \<not> play_ok oc then Inl PlayRejected else Inr ())"
  "audioRef p = Some a \<Longrightarrow>
   trace (snd (play_direct snap oc station p)) =
     trace p
     @ [EvPause Primary, EvVolume Primary 0,
        EvRegisterClick (stationuuid station) (click_ok oc)]
     @ (if \<not> click_ok oc then []
        else [EvSetSrc Primary (stationUrl station), EvVolume Primary 0, EvLoad Primary]
             @ (if \<not> load_ok oc then []
                else EvPlay Primary (play_ok oc)
                     # (if \<not> play_ok oc then [] else [EvVolume Primary 0])))"
  by (simp_all add: play_direct_def Let_def fadeIn_def prim_defs)

lemma ramp_events_started: "list_all is_ramp_event evs \<Longrightarrow> fold started_step evs c = c"
proof (induction evs arbitrary: c)
  case Nil
  then show ?case by simp
next
  case (Cons e evs)
  then have "is_ramp_event e" by simp
  then have "started_step e c = c"
    by (rule ramp_event_cases) (cases c; simp)+
  with Cons show ?case by simp
qed

text \<open>
  What one call of \<open>playStation\<close> adds to the trace when both elements exist: events of
  the media elements and of the click registration only, with a fulfilled \<open>play()\<close>
  exactly when the call returns without throwing, which is when all three awaited calls
  succeed. In that case the scan of the trace finds the playback of the station started:
  the source of the primary element was set to the stream of the station before
  \<open>play()\<close> was fulfilled.
\<close>

lemma playStation_events:
  assumes "audioRef p = Some a" and "crossfadeAudioRef p = Some c"
  shows "\<exists>evs. trace (snd (playStation snap oc station p)) = trace p @ evs
           \<and> list_all is_media_event evs
           \<and> (EvPlay Primary True \<in> set evs) = (fst (playStation snap oc station p) = Inr ())
           \<and> (fst (playStation snap oc station p) = Inr ())
               = (click_ok oc \<and> load_ok oc \<and> play_ok oc)
           \<and> (fst (playStation snap oc station p) = Inr () \<longrightarrow>
                (\<forall>source started.
                   fold started_step evs (Some station, source, started)
                     = (Some station, Some (stationUrl station), Some station)))"
proof (cases "isPlaying snap \<and> 0 < el_volume a \<and> \<not> paused a")
  case True
  note eqs = playStation_sequential_run [OF assms True, of oc station]
  from play_sequential_run [OF assms, of snap oc station]
  obtain ramp where r: "list_all is_ramp_event ramp"
    "trace (snd (play_sequential snap oc station p)) = trace p @ sequential_events oc station ramp"
    by blast
  have m: "list_all is_media_event (sequential_events oc station ramp)"
    using ramp_events_media [OF r(1)] by (simp add: sequential_events_def)
  have pl: "(EvPlay Primary True \<in> set (sequential_events oc station ramp))
      = (click_ok oc \<and> load_ok oc \<and> play_ok oc)"
    using ramp_events_no_play [OF r(1)] by (auto simp: sequential_events_def)
  have res: "(fst (playStation snap oc station p) = Inr ())
      = (click_ok oc \<and> load_ok oc \<and> play_ok oc)"
    by (simp add: eqs(4) play_sequential_result)
  have st: "fold started_step (sequential_events oc station ramp) (Some station, source, started)
      = (Some station, Some (stationUrl station), Some station)"
    if "click_ok oc \<and> load_ok oc \<and> play_ok oc" for source started
    using that by (simp add: sequential_events_def ramp_events_started [OF r(1)])
  show ?thesis
    using eqs(1) r(2) m pl res st by auto
next
  case False
  note unfolded = playStation_cases [OF assms, of snap oc station, unfolded if_not_P [OF False]]
  have tr: "trace (snd (playStation snap oc station p))
      = trace (snd (play_direct snap oc station p))"
    and fs: "fst (playStation snap oc station p) = fst (play_direct snap oc station p)"
    by (simp_all add: unfolded Let_def set_state_def split: sum.splits)
  show ?thesis
    unfolding tr fs play_direct_run(1) play_direct_run(2) [OF assms(1)]
    by (intro exI conjI, rule refl) auto
qed


lemma calls_of_append: "calls_of (xs @ ys) = calls_of xs @ calls_of ys"
  by (induction xs rule: calls_of.induct) simp_all

lemma selections_of_append: "selections_of (xs @ ys) = selections_of xs @ selections_of ys"
  by (induction xs rule: selections_of.induct) simp_all

lemma media_events_calls: "list_all is_media_event evs \<Longrightarrow> calls_of evs = []"
  by (induction evs rule: calls_of.induct) simp_all

lemma media_events_selections: "list_all is_media_event evs \<Longrightarrow> selections_of evs = []"
  by (induction evs rule: selections_of.induct) simp_all


lemma mset_remove_nth:
  "i < length xs \<Longrightarrow> mset (take i xs @ drop (Suc i) xs) + {#xs ! i#} = mset xs"
proof -
  assume "i < length xs"
  then have "xs = take i xs @ xs ! i # drop (Suc i) xs" by (rule id_take_nth_drop)
  then have "mset xs = mset (take i xs @ xs ! i # drop (Suc i) xs)" by simp
  then show ?thesis by simp
qed

text \<open>
  A round in which every attempt fails: \<open>playStation\<close> throws each time, so the
  callback, supplied or not, is never reached.
\<close>

lemma retry_loop_all_fail:
  "audioRef p \<noteq> None \<Longrightarrow> crossfadeAudioRef p \<noteq> None \<Longrightarrow>
   \<forall>k. attempts \<le> k \<and> k < 5 \<longrightarrow> \<not> (click_ok (ocs k) \<and> load_ok (ocs k) \<and> play_ok (ocs k)) \<Longrightarrow>
   avail \<noteq> catalog \<Longrightarrow>
   retry_loop snap cb draws ocs avail attempts h p = (res, h', p') \<Longrightarrow>
   res = Exhausted \<and> cells h' catalog = cells h catalog
   \<and> (\<exists>evs. trace p' = trace p @ evs @ [EvAllAttemptsFailed]
         \<and> selections_of evs = []
         \<and> EvPlay Primary True \<notin> set evs
         \<and> length (calls_of evs) = min (5 - attempts) (length (cells h avail))
         \<and> mset (cells h' avail) + mset (calls_of evs) = mset (cells h avail))"
proof (induction snap cb draws ocs avail attempts h p rule: retry_loop.induct)
  case (1 snap cb draws ocs avail attempts h p)
  let ?i = "draws attempts mod length (cells h avail)"
  let ?st = "cells h avail ! ?i"
  let ?q = "emit (EvPlayStationCall ?st) p"
  let ?r = "playStation snap (ocs attempts) ?st ?q"
  let ?tried = "case fst ?r of
                  Inl e \<Rightarrow> (True, snd ?r)
                | Inr u \<Rightarrow>
                    (case cb of
                       None \<Rightarrow> (False, snd ?r)
                     | Some throws \<Rightarrow>
                         (throws attempts, emit (EvStationSelected ?st) (snd ?r)))"
  note unf = retry_loop.simps [of snap cb draws ocs avail attempts h p]
  show ?case
  proof (cases "attempts < 5 \<and> cells h avail \<noteq> []")
    case False
    have "retry_loop snap cb draws ocs avail attempts h p
            = (Exhausted, h, emit EvAllAttemptsFailed p)"
      using unf unfolding if_not_P [OF False] .
    from this "1.prems"(5)
    have "(Exhausted, h, emit EvAllAttemptsFailed p) = (res, h', p')"
      by (rule trans [OF sym])
    then have e: "res = Exhausted" "h' = h" "p' = emit EvAllAttemptsFailed p"
      by auto
    have "trace p' = trace p @ [] @ [EvAllAttemptsFailed]" using e(3) by (simp add: emit_def)
    moreover have "length (calls_of []) = min (5 - attempts) (length (cells h avail))"
      using False by auto
    ultimately show ?thesis using e(1,2)
      by (intro conjI exI [of _ "[]"]) simp_all
  next
    case cond: True
    obtain a c where ac: "audioRef ?q = Some a" "crossfadeAudioRef ?q = Some c"
      using "1.prems"(1,2) by (auto simp: emit_def)
    from playStation_events [OF ac, of snap "ocs attempts" ?st]
    obtain evs where ev: "trace (snd ?r) = trace ?q @ evs" "list_all is_media_event evs"
      "(EvPlay Primary True \<in> set evs) = (fst ?r = Inr ())"
      "(fst ?r = Inr ()) = (click_ok (ocs attempts) \<and> load_ok (ocs attempts) \<and> play_ok (ocs attempts))"
      by blast
    have "\<not> (click_ok (ocs attempts) \<and> load_ok (ocs attempts) \<and> play_ok (ocs attempts))"
      using "1.prems"(3) cond by simp
    then have nr: "fst ?r \<noteq> Inr ()" using ev(4) by simp
    then obtain e where Inl: "fst ?r = Inl e" by (cases "fst ?r") auto
    have tried: "?tried = (True, snd ?r)" using Inl by simp
    have nn: "\<not> \<not> fst ?tried" using tried by simp
    have nopl: "EvPlay Primary True \<notin> set evs" using ev(3) nr by simp
    have trq: "trace ?q = trace p @ [EvPlayStationCall ?st]" by (simp add: emit_def)
    let ?p1 = "emit (EvAttemptFailed ?st) (snd ?tried)"
    let ?h1 = "splice1 avail ?i h"
    let ?p2 = "if attempts + 1 < 5 \<and> cells ?h1 avail \<noteq> [] then emit (EvDelay 1000) ?p1 else ?p1"
    let ?dl = "if attempts + 1 < 5 \<and> cells ?h1 avail \<noteq> [] then [EvDelay 1000] else []"
    have rec: "retry_loop snap cb draws ocs avail attempts h p
            = retry_loop snap cb draws ocs avail (attempts + 1) ?h1 ?p2"
      using unf cond nn by (simp add: Let_def)
    have pres: "audioRef ?p2 \<noteq> None" "crossfadeAudioRef ?p2 \<noteq> None"
      unfolding tried snd_conv
      using playStation_present [of snap "ocs attempts" ?st ?q] ac
      by (simp_all add: emit_def)
    have fails: "\<forall>k. attempts + 1 \<le> k \<and> k < 5
        \<longrightarrow> \<not> (click_ok (ocs k) \<and> load_ok (ocs k) \<and> play_ok (ocs k))"
      using "1.prems"(3) by simp
    have res: "retry_loop snap cb draws ocs avail (attempts + 1) ?h1 ?p2 = (res, h', p')"
      using rec "1.prems"(5) by simp
    from "1.IH" [OF cond refl refl refl refl nn refl refl refl pres fails "1.prems"(4) res]
    obtain evs' where ih: "res = Exhausted" "cells h' catalog = cells ?h1 catalog"
      "trace p' = trace ?p2 @ evs' @ [EvAllAttemptsFailed]"
      "selections_of evs' = []" "EvPlay Primary True \<notin> set evs'"
      "length (calls_of evs') = min (5 - (attempts + 1)) (length (cells ?h1 avail))"
      "mset (cells h' avail) + mset (calls_of evs') = mset (cells ?h1 avail)"
      by blast
    have i: "?i < length (cells h avail)" using cond by simp
    have pool: "cells ?h1 avail = take ?i (cells h avail) @ drop (Suc ?i) (cells h avail)"
      by (simp add: splice1_def)
    have cat: "cells ?h1 catalog = cells h catalog"
      using "1.prems"(4) by (simp add: splice1_def)
    have len: "length (cells ?h1 avail) = length (cells h avail) - 1"
      using i by (simp add: pool)
    have ms: "mset (cells ?h1 avail) + {#?st#} = mset (cells h avail)"
      using mset_remove_nth [OF i] by (simp add: pool)
    let ?evs = "(EvPlayStationCall ?st # evs @ EvAttemptFailed ?st # ?dl) @ evs'"
    have trp2: "trace ?p2 = trace p @ (EvPlayStationCall ?st # evs @ EvAttemptFailed ?st # ?dl)"
      unfolding tried snd_conv
      using ev(1) trq by (simp add: emit_def)
    have tr: "trace p' = trace p @ ?evs @ [EvAllAttemptsFailed]"
      using ih(3) trp2 by simp
    have sel: "selections_of ?evs = []"
      using media_events_selections [OF ev(2)] ih(4) by (simp add: selections_of_append)
    have calls: "calls_of ?evs = ?st # calls_of evs'"
      using media_events_calls [OF ev(2)] by (simp add: calls_of_append)
    have np: "EvPlay Primary True \<notin> set ?evs"
      using nopl ih(5) by simp
    have cnt: "length (calls_of ?evs) = min (5 - attempts) (length (cells h avail))"
      using ih(6) len cond calls by (cases "cells h avail") auto
    have msf: "mset (cells h' avail) + mset (calls_of ?evs) = mset (cells h avail)"
      using ih(7) ms calls by (simp add: ac_simps)
    from ih(1) ih(2) cat tr sel np cnt msf show ?thesis by metis
  qed
qed

lemma spread_copy_facts:
  assumes "catalog < next_addr h"
  shows "fst (spread_copy catalog h) = next_addr h"
    and "fst (spread_copy catalog h) \<noteq> catalog"
    and "cells (snd (spread_copy catalog h)) (next_addr h) = cells h catalog"
    and "cells (snd (spread_copy catalog h)) catalog = cells h catalog"
  using assms by (simp_all add: spread_copy_def)

text \<open>
  Claim C3. With both media elements present and a non-empty catalog, when every
  attempt of the round fails (none has click registration, load and \<open>play()\<close> all
  succeed), \<open>playRandomStation\<close> calls \<open>playStation\<close> as many times as the smaller of 5
  and the number of candidates, so never a sixth time; the catalog array is as it was,
  and the pool (the copy made for the round) together with the stations tried is the
  catalog; no station is reported, no playback starts, and the function returns
  normally with the report that all attempts failed as its last action.
\<close>

theorem retry_bound_when_all_fail:
  assumes "audioRef p \<noteq> None" and "crossfadeAudioRef p \<noteq> None"
    and "cells h stationsRef \<noteq> []" and "stationsRef < next_addr h"
    and "\<forall>k<5. \<not> (click_ok (ocs k) \<and> load_ok (ocs k) \<and> play_ok (ocs k))"
    and "playRandomStation snap cb draws ocs stationsRef h p = (res, h', p')"
  shows "res = Exhausted
         \<and> take (length (trace p)) (trace p') = trace p
         \<and> length (calls_of (drop (length (trace p)) (trace p')))
             = min 5 (length (cells h stationsRef))
         \<and> length (calls_of (drop (length (trace p)) (trace p'))) \<le> 5
         \<and> cells h' stationsRef = cells h stationsRef
         \<and> mset (cells h' (next_addr h)) + mset (calls_of (drop (length (trace p)) (trace p')))
             = mset (cells h stationsRef)
         \<and> selections_of (drop (length (trace p)) (trace p')) = []
         \<and> EvPlay Primary True \<notin> set (drop (length (trace p)) (trace p'))
         \<and> last (trace p') = EvAllAttemptsFailed"
proof -
  let ?avail = "next_addr h"
  let ?h1 = "snd (spread_copy stationsRef h)"
  note sc = spread_copy_facts [OF assms(4)]
  have loop: "retry_loop snap cb draws ocs ?avail 0 ?h1 p = (res, h', p')"
    using assms(3,6) sc(1)
    by (simp add: playRandomStation_def Let_def split: prod.splits)
  have fails: "\<forall>k. 0 \<le> k \<and> k < 5
      \<longrightarrow> \<not> (click_ok (ocs k) \<and> load_ok (ocs k) \<and> play_ok (ocs k))"
    using assms(5) by simp
  have ne: "?avail \<noteq> stationsRef" using assms(4) by simp
  from retry_loop_all_fail [OF assms(1,2) fails ne loop]
  obtain evs where r: "res = Exhausted" "cells h' stationsRef = cells ?h1 stationsRef"
    "trace p' = trace p @ evs @ [EvAllAttemptsFailed]"
    "selections_of evs = []" "EvPlay Primary True \<notin> set evs"
    "length (calls_of evs) = min (5 - 0) (length (cells ?h1 ?avail))"
    "mset (cells h' ?avail) + mset (calls_of evs) = mset (cells ?h1 ?avail)"
    by blast
  have d: "drop (length (trace p)) (trace p') = evs @ [EvAllAttemptsFailed]"
    using r(3) by simp
  have c: "calls_of (evs @ [EvAllAttemptsFailed]) = calls_of evs"
    and s: "selections_of (evs @ [EvAllAttemptsFailed]) = selections_of evs"
    by (simp_all add: calls_of_append selections_of_append)
  show ?thesis
    unfolding d c s
    using r sc(3,4) by simp
qed

theorem retry_bound_when_all_fail_witness:
  "audioRef mounted \<noteq> None \<and> crossfadeAudioRef mounted \<noteq> None
   \<and> cells example_store 0 \<noteq> [] \<and> 0 < next_addr example_store
   \<and> \<not> (click_ok load_fails \<and> load_ok load_fails \<and> play_ok load_fails)
   \<and> fst (playRandomStation initialAudioState (Some never_throws) (\<lambda>k. k) (\<lambda>k. load_fails) 0
             example_store mounted) = Exhausted
   \<and> length (calls_of (trace (snd (snd (playRandomStation initialAudioState (Some never_throws) (\<lambda>k. k)
             (\<lambda>k. load_fails) 0 example_store mounted))))) = 2
   \<and> cells (fst (snd (playRandomStation initialAudioState (Some never_throws) (\<lambda>k. k)
             (\<lambda>k. load_fails) 0 example_store mounted))) 0
       = [example_station, example_station_2]"
proof -
  let ?R = "playRandomStation initialAudioState (Some never_throws) (\<lambda>k. k) (\<lambda>k. load_fails) 0
              example_store mounted"
  have h1: "audioRef mounted \<noteq> None" and h2: "crossfadeAudioRef mounted \<noteq> None"
    and t: "trace mounted = []"
    by (simp_all add: mounted_def unmounted_def)
  have h3: "cells example_store 0 \<noteq> []" and h4: "0 < next_addr example_store"
    and c: "cells example_store 0 = [example_station, example_station_2]"
    by (simp_all add: example_store_def)
  have h5: "\<forall>k<5. \<not> (click_ok load_fails \<and> load_ok load_fails \<and> play_ok load_fails)"
    by (simp add: load_fails_def)
  have n: "\<not> (click_ok load_fails \<and> load_ok load_fails \<and> play_ok load_fails)"
    by (simp add: load_fails_def)
  have h6: "?R = (fst ?R, fst (snd ?R), snd (snd ?R))" by simp
  from retry_bound_when_all_fail [OF h1 h2 h3 h4 h5 h6]
  show ?thesis using h1 h2 h3 h4 n t c by simp
qed




section \<open>Supporting facts: the API client and the transitional element\<close>

lemma request_attempts_all_down:
  "\<forall>server. \<not> respond server endpoint \<Longrightarrow>
   \<exists>e. fst (request_attempts n respond endpoint lastError api) = Inl e"
  by (induction n arbitrary: lastError api) (auto split: sum.splits)

lemma registerClick_all_down:
  "\<forall>server. \<not> respond server (''/url/'' @ uuid) \<Longrightarrow>
   \<exists>e. fst (registerClick respond uuid api) = Inl e"
  unfolding registerClick_def makeRequest_def by (rule request_attempts_all_down)

text \<open>
  No operation ever calls \<open>play()\<close> on the transitional element: created paused, it
  stays paused under every sequence of steps, so only the primary element can sound.
\<close>

lemma fade_callback_transitional:
  "crossfadeAudioRef (fade_callback p) = crossfadeAudioRef p"
  by (simp add: fade_callback_def prim_defs split: option.splits fade_dir.splits)

lemma await_fade_transitional: "crossfadeAudioRef (await_fade p) = crossfadeAudioRef p"
proof (induction p rule: await_fade.induct)
  case (1 p)
  then show ?case
    by (subst await_fade.simps) (simp add: fade_callback_transitional)
qed

lemma fadeIn_transitional: "crossfadeAudioRef (fadeIn snap d p) = crossfadeAudioRef p"
  by (simp add: fadeIn_def prim_defs split: option.splits)

lemma fadeOut_transitional: "crossfadeAudioRef (fadeOut d p) = crossfadeAudioRef p"
  by (simp add: fadeOut_def prim_defs split: option.splits)

lemma play_direct_transitional:
  "crossfadeAudioRef (snd (play_direct snap oc station p)) = crossfadeAudioRef p"
  by (simp add: play_direct_def Let_def fadeIn_transitional prim_defs)

lemma play_sequential_transitional:
  "crossfadeAudioRef p = Some c \<Longrightarrow> paused c \<Longrightarrow>
   \<exists>c'. crossfadeAudioRef (snd (play_sequential snap oc station p)) = Some c' \<and> paused c'"
  by (simp add: play_sequential_def Let_def fadeIn_transitional fadeOut_transitional
      await_fade_transitional prim_defs)

lemma playStation_transitional_paused:
  assumes "transitional_paused p"
  shows "transitional_paused (snd (playStation snap oc station p))"
proof (cases "audioRef p")
  case None
  then show ?thesis using assms by (simp add: playStation_unmounted)
next
  case (Some a)
  from assms obtain c where c: "crossfadeAudioRef p = Some c" "paused c"
    by (auto simp: transitional_paused_def split: option.splits)
  have tr: "crossfadeAudioRef (snd (playStation snap oc station p))
      = crossfadeAudioRef (snd (if isPlaying snap \<and> 0 < el_volume a \<and> \<not> paused a
                                then play_sequential snap oc station p
                                else play_direct snap oc station p))"
    by (simp add: playStation_cases [OF Some c(1)] Let_def set_state_def split: sum.splits)
  show ?thesis
    using play_sequential_transitional [OF c, of snap oc station] c
    by (auto simp: tr transitional_paused_def play_direct_transitional)
qed

lemma apply_op_transitional_paused:
  assumes "transitional_paused p"
  shows "transitional_paused (apply_op x p)"
proof (cases x)
  case (OpPlayStation snap oc station)
  then show ?thesis using assms by (simp add: playStation_transitional_paused)
next
  case (OpStopWithFade d)
  then show ?thesis
    using assms
    by (auto simp: transitional_paused_def stopWithFade_def Let_def fadeOut_def
        await_fade_transitional prim_defs split: option.splits)
next
  case (OpCrossfadeCallback)
  then show ?thesis
    using assms
    by (cases "crossfadeIntervalRef p")
       (auto simp: transitional_paused_def crossfade_callback_def prim_defs
          split: slot.splits option.splits)
next
  case (OpMediaEvent ev)
  then show ?thesis
    using assms by (cases ev) (simp_all add: transitional_paused_def handle_event_def prim_defs)
qed (use assms in \<open>auto simp: transitional_paused_def stop_def pause_def resume_def
      setVolume_def fadeIn_def fadeOut_def crossfade_def fade_callback_transitional Let_def
      prim_defs split: option.splits\<close>)

lemma transitional_never_played:
  "transitional_paused p \<Longrightarrow> transitional_paused (run_ops ops p)"
  unfolding run_ops_def
  by (induction ops arbitrary: p) (simp_all add: apply_op_transitional_paused)


end
